theory Spec2Isabelle
  imports Main
begin

section \<open>Strings\<close>

text \<open>
  A JavaScript string is modelled as a \<^typ>\<open>string\<close>: the list of its code units, each
  an Isabelle character, read as the code points U+0000 to U+00FF. The character classes
  below are the ECMAScript ones cut down to that range:
  \<^item> \<open>is_space\<close>: what \<^verbatim>\<open>String.prototype.trim\<close> strips and what \<^verbatim>\<open>\s\<close> matches
    (TAB, LF, VT, FF, CR, SPACE, NBSP);
  \<^item> \<open>is_digit\<close>: \<^verbatim>\<open>\d\<close>, the ten ASCII digits;
  \<^item> \<open>is_word\<close>: \<^verbatim>\<open>\w\<close>, ASCII letters, digits and the underscore;
  \<^item> \<open>is_line_terminator\<close>: the characters \<^verbatim>\<open>.\<close> does not match (LF, CR).
\<close>

definition is_space :: "char \<Rightarrow> bool" where
  "is_space c = (c \<in> set [CHR 0x09, CHR 0x0A, CHR 0x0B, CHR 0x0C, CHR 0x0D, CHR 0x20, CHR 0xA0])"

definition is_digit :: "char \<Rightarrow> bool" where
  "is_digit c = (c \<in> set ''0123456789'')"

definition is_word :: "char \<Rightarrow> bool" where
  "is_word c = (c \<in> set ''ABCDEFGHIJKLMNOPQRSTUVWXYZabcdefghijklmnopqrstuvwxyz0123456789_'')"

definition is_line_terminator :: "char \<Rightarrow> bool" where
  "is_line_terminator c = (c \<in> set [CHR 0x0A, CHR 0x0D])"

text \<open>\<^verbatim>\<open>s.trim()\<close>: leading and trailing white space removed.\<close>

definition trim :: "string \<Rightarrow> string" where
  "trim s = rev (dropWhile is_space (rev (dropWhile is_space s)))"

text \<open>
  \<^verbatim>\<open>s.toLowerCase()\<close>. Below U+0100 the upper-case letters are A to Z (65 to 90) and
  U+00C0 to U+00DE without the multiplication sign U+00D7 (215); each is mapped to the
  code point 32 above it, which is the same code with bit 5 set.
\<close>

definition toLowerCase_char :: "char \<Rightarrow> char" where
  "toLowerCase_char c =
     (let n = (of_char c :: nat) in
      if (65 \<le> n \<and> n \<le> 90) \<or> (192 \<le> n \<and> n \<le> 222 \<and> n \<noteq> 215)
      then (case c of Char b0 b1 b2 b3 b4 b5 b6 b7 \<Rightarrow> Char b0 b1 b2 b3 b4 True b6 b7)
      else c)"

definition toLowerCase :: "string \<Rightarrow> string" where
  "toLowerCase s = map toLowerCase_char s"

text \<open>
  \<^verbatim>\<open>s.split(d)\<close> for a one-character separator: the pieces between the separators, empty
  pieces kept; the empty string gives one empty piece.
\<close>

fun split :: "char \<Rightarrow> string \<Rightarrow> string list" where
  "split d [] = [[]]"
| "split d (c # cs) =
     (if c = d then [] # split d cs
      else (case split d cs of [] \<Rightarrow> [[c]] | piece # pieces \<Rightarrow> (c # piece) # pieces))"

text \<open>
  \<^verbatim>\<open>s.split(/\s+/)\<close>: every maximal run of white space is one separator; a run at the start
  or at the end of the string leaves an empty piece there.
\<close>

function split_spaces :: "string \<Rightarrow> string list" where
  "split_spaces [] = [[]]"
| "split_spaces (c # cs) =
     (if is_space c then [] # split_spaces (dropWhile is_space cs)
      else (case split_spaces cs of [] \<Rightarrow> [[c]] | piece # pieces \<Rightarrow> (c # piece) # pieces))"
  by pat_completeness auto
termination
  by (relation "measure length") (auto simp: less_Suc_eq_le length_dropWhile_le)

text \<open>\<^verbatim>\<open>xs.join(sep)\<close>.\<close>

fun join :: "string \<Rightarrow> string list \<Rightarrow> string" where
  "join sep [] = []"
| "join sep [x] = x"
| "join sep (x # y # ys) = x @ sep @ join sep (y # ys)"

text \<open>\<^verbatim>\<open>/^\d{4}-\d{2}-\d{2}T/\<close> tested against a string: a match of the first eleven characters.\<close>

fun match_timestamp :: "string \<Rightarrow> bool" where
  "match_timestamp (y1 # y2 # y3 # y4 # h1 # m1 # m2 # h2 # d1 # d2 # t # rest) =
     (is_digit y1 \<and> is_digit y2 \<and> is_digit y3 \<and> is_digit y4 \<and> h1 = CHR ''-'' \<and>
      is_digit m1 \<and> is_digit m2 \<and> h2 = CHR ''-'' \<and>
      is_digit d1 \<and> is_digit d2 \<and> t = CHR ''T'')"
| "match_timestamp s = False"


section \<open>Values and the store\<close>

text \<open>
  What a \<^verbatim>\<open>catch\<close> clause may receive: any value can be thrown, and a promise can be
  rejected with any value, \<^verbatim>\<open>null\<close> and \<^verbatim>\<open>undefined\<close> included (\<^verbatim>\<open>Promise.reject()\<close>).
  The source only ever reads the \<^verbatim>\<open>message\<close> property of such a value. Reading a property
  of \<^verbatim>\<open>null\<close> or \<^verbatim>\<open>undefined\<close> throws a \<^verbatim>\<open>TypeError\<close>; on every other value it gives
  the property, or \<^verbatim>\<open>undefined\<close> when the value has none. So a thrown value is
  \<^verbatim>\<open>null\<close>, \<^verbatim>\<open>undefined\<close>, or a value with its \<^verbatim>\<open>message\<close>, \<open>None\<close> when absent.

  A failed \<^verbatim>\<open>execAsync\<close> is different: the promisified \<^verbatim>\<open>child_process.exec\<close> always
  rejects with an \<^verbatim>\<open>Error\<close> object, which the source reads as
  \<^verbatim>\<open>{ stderr?: string; message?: string }\<close>.
\<close>

datatype thrown = ThrownNull | ThrownUndefined | Thrown "string option"

datatype ExecError = ExecError (stderr: "string option") (exec_message: "string option")

text \<open>
  \<^verbatim>\<open>QueryResult\<close> of the protocol; the optional properties are options, and the optional
  \<^verbatim>\<open>data\<close> record is a list of its entries.
\<close>

record QueryResult =
  handled :: bool
  content :: string
  data :: "(string \<times> string) list option"
  error :: "string option"

text \<open>
  Objects are mutable and shared in the source, so the data of a log line lives in a store
  and the program passes references. A context object
  (\<^verbatim>\<open>Record<string, unknown>\<close>, read as \<^verbatim>\<open>Record<string, string>\<close> by the source) is the
  list of its entries in the order of \<^verbatim>\<open>Object.entries\<close>; the \<^verbatim>\<open>source\<close> object and
  the data properties of the line object are records.
\<close>

type_synonym ref = nat

type_synonym props = "(string \<times> string) list"

record SourceObj =
  source_type :: string
  source_id :: string
  source_context :: ref

record LineObj =
  line_timestamp :: string
  line_message :: string
  line_raw :: string
  line_source :: ref

text \<open>
  The interactions with the outside that the program performs: a shell command handed to
  \<^verbatim>\<open>execAsync\<close>, a call of the configured fallback handler with its two arguments, a
  line written by \<^verbatim>\<open>console.warn\<close>.
\<close>

datatype event = Exec string | FallbackCall string string | Warn string

text \<open>
  \<^verbatim>\<open>ClaudeFallbackConfig\<close>. The handler is external code that receives two strings; it
  either resolves to a string or rejects with a thrown value.
\<close>

record ClaudeFallbackConfig =
  enabled :: bool
  fallback_handler :: "(string \<Rightarrow> string \<Rightarrow> thrown + string) option"

text \<open>
  The state of the program: the three stores with their allocation counter, the
  module-level variable \<^verbatim>\<open>fallbackConfig\<close>, the trace of the interactions performed
  so far, and the environment's answer to a shell command (what \<^verbatim>\<open>execAsync\<close>
  settles to: the standard output, or the error it rejects with).
\<close>

record state =
  lines :: "ref \<Rightarrow> LineObj"
  sources :: "ref \<Rightarrow> SourceObj"
  contexts :: "ref \<Rightarrow> props"
  next_ref :: ref
  fallbackConfig :: ClaudeFallbackConfig
  events :: "event list"
  execAsync :: "string \<Rightarrow> ExecError + string"

text \<open>
  An effectful call of the source (awaited to completion by its caller) takes the state and
  returns the state after it, with either the value it returns or the value it throws.
\<close>

type_synonym 'a io = "state \<Rightarrow> (thrown + 'a) \<times> state"

definition new_context :: "props \<Rightarrow> state \<Rightarrow> ref \<times> state" where
  "new_context p s =
     (next_ref s, s\<lparr>contexts := (contexts s)(next_ref s := p), next_ref := Suc (next_ref s)\<rparr>)"

definition new_source :: "SourceObj \<Rightarrow> state \<Rightarrow> ref \<times> state" where
  "new_source p s =
     (next_ref s, s\<lparr>sources := (sources s)(next_ref s := p), next_ref := Suc (next_ref s)\<rparr>)"

definition new_line :: "LineObj \<Rightarrow> state \<Rightarrow> ref \<times> state" where
  "new_line p s =
     (next_ref s, s\<lparr>lines := (lines s)(next_ref s := p), next_ref := Suc (next_ref s)\<rparr>)"

text \<open>
  Reading a property of a context object gives \<^verbatim>\<open>undefined\<close> (\<open>None\<close>) when the object
  has no such property. \<open>truthy\<close> is JavaScript's truthiness of such a value, \<open>template\<close>
  its rendering inside a template literal.
\<close>

definition property :: "props \<Rightarrow> string \<Rightarrow> string option" where
  "property p k = map_of p k"

definition truthy :: "string option \<Rightarrow> bool" where
  "truthy v = (case v of None \<Rightarrow> False | Some x \<Rightarrow> x \<noteq> [])"

definition template :: "string option \<Rightarrow> string" where
  "template v = (case v of None \<Rightarrow> ''undefined'' | Some x \<Rightarrow> x)"

text \<open>\<^verbatim>\<open>Command\<close> and \<^verbatim>\<open>ActionableLogLine\<close> of the protocol. A line is the reference to its
  data properties together with its command list and its \<^verbatim>\<open>handleQuery\<close> method.\<close>

record Command =
  name :: string
  aliases :: "string list"
  description :: string
  handler :: "string \<Rightarrow> QueryResult io"

record ActionableLogLine =
  self :: ref
  availableCommands :: "Command list"
  handleQuery :: "string \<Rightarrow> QueryResult io"

section \<open>The beads adapter\<close>

text \<open>
  \<^verbatim>\<open>runBdCommand\<close>: the command line is handed to \<^verbatim>\<open>execAsync\<close>; on success the trimmed
  standard output is returned, on failure \<^verbatim>\<open>err.stderr || err.message || 'Command failed'\<close>.
\<close>

definition runBdCommand :: "string \<Rightarrow> state \<Rightarrow> string \<times> state" where
  "runBdCommand args s =
     (let cmd = ''bd '' @ args;
          s' = s\<lparr>events := events s @ [Exec cmd]\<rparr>
      in case execAsync s cmd of
           Inr stdout \<Rightarrow> (trim stdout, s')
         | Inl err \<Rightarrow>
             (if truthy (stderr err) then template (stderr err)
              else if truthy (exec_message err) then template (exec_message err)
              else ''Command failed'', s'))"

text \<open>
  \<^verbatim>\<open>parseEventCode\<close>: the piece before the first dot and the other pieces joined again.
  (\<open>split\<close> never returns the empty list; destructuring one would leave \<^verbatim>\<open>category\<close>
  undefined.)
\<close>

definition parseEventCode :: "string \<Rightarrow> string \<times> string" where
  "parseEventCode eventCode =
     (case split (CHR ''.'') eventCode of
        [] \<Rightarrow> (''undefined'', [])
      | category # rest \<Rightarrow> (category, join ''.'' rest))"

text \<open>
  The \<^verbatim>\<open>TypeError\<close> thrown on reading the property \<open>p\<close> of \<^verbatim>\<open>null\<close> or
  \<^verbatim>\<open>undefined\<close> (\<open>v\<close>), with its message
  \<^verbatim>\<open>Cannot read properties of undefined (reading 'split')\<close>. Calling
  \<^verbatim>\<open>parseEventCode(context.eventCode)\<close> on a context object without that property throws
  it at \<^verbatim>\<open>eventCode.split\<close>.
\<close>

definition TypeError :: "string \<Rightarrow> string \<Rightarrow> thrown" where
  "TypeError v p =
     Thrown (Some (''Cannot read properties of '' @ v @ '' (reading '' @ [CHR 0x27] @ p
                   @ [CHR 0x27] @ '')''))"

text \<open>
  \<^verbatim>\<open>createBeadsCommands(context)\<close>: the seven commands, whose handlers close over the
  reference to the context object and read it when they run.
\<close>

definition createBeadsCommands :: "ref \<Rightarrow> Command list" where
  "createBeadsCommands context =
   [ \<lparr> name = ''show'', aliases = [''s''], description = ''Show issue details'',
       handler = (\<lambda>params s.
         let issueId = property (contexts s context) ''issueId'' in
         if \<not> truthy issueId \<or> issueId = Some ''none''
         then (Inr \<lparr>handled = True, content = ''No issue associated with this event'',
                    data = None, error = None\<rparr>, s)
         else (case runBdCommand (''show '' @ template issueId) s of
                 (output, s') \<Rightarrow>
                   (Inr \<lparr>handled = True, content = output, data = None, error = None\<rparr>, s'))) \<rparr>,
     \<lparr> name = ''related'', aliases = [''r'', ''rel''], description = ''Show related events'',
       handler = (\<lambda>params s.
         let issueId = property (contexts s context) ''issueId'' in
         if truthy issueId \<and> issueId \<noteq> Some ''none''
         then (case runBdCommand (''log --issue '' @ template issueId) s of
                 (output, s') \<Rightarrow>
                   (Inr \<lparr>handled = True, content = output, data = None, error = None\<rparr>, s'))
         else (case property (contexts s context) ''eventCode'' of
                 None \<Rightarrow> (Inl (TypeError ''undefined'' ''split''), s)
               | Some eventCode \<Rightarrow>
                   (case runBdCommand
                           (''log --category '' @ fst (parseEventCode eventCode) @ '' --last 20'') s of
                      (output, s') \<Rightarrow>
                        (Inr \<lparr>handled = True, content = output, data = None, error = None\<rparr>,
                         s')))) \<rparr>,
     \<lparr> name = ''deps'', aliases = [''d'', ''dependencies''],
       description = ''Show issue dependencies'',
       handler = (\<lambda>params s.
         let issueId = property (contexts s context) ''issueId'' in
         if \<not> truthy issueId \<or> issueId = Some ''none''
         then (Inr \<lparr>handled = True, content = ''No issue associated with this event'',
                    data = None, error = None\<rparr>, s)
         else (case runBdCommand (''show '' @ template issueId) s of
                 (output, s') \<Rightarrow>
                   (Inr \<lparr>handled = True, content = output, data = None, error = None\<rparr>, s'))) \<rparr>,
     \<lparr> name = ''category'', aliases = [''c'', ''cat''],
       description = ''Filter by event category'',
       handler = (\<lambda>params s.
         if params \<noteq> []
         then (case runBdCommand (''log --category '' @ params @ '' --last 30'') s of
                 (output, s') \<Rightarrow>
                   (Inr \<lparr>handled = True, content = output, data = None, error = None\<rparr>, s'))
         else (case property (contexts s context) ''eventCode'' of
                 None \<Rightarrow> (Inl (TypeError ''undefined'' ''split''), s)
               | Some eventCode \<Rightarrow>
                   (case runBdCommand
                           (''log --category '' @ fst (parseEventCode eventCode) @ '' --last 30'') s of
                      (output, s') \<Rightarrow>
                        (Inr \<lparr>handled = True, content = output, data = None, error = None\<rparr>,
                         s')))) \<rparr>,
     \<lparr> name = ''session'', aliases = [''sess''],
       description = ''Show events from this session'',
       handler = (\<lambda>params s.
         let sessionId = property (contexts s context) ''sessionId'' in
         if \<not> truthy sessionId
         then (Inr \<lparr>handled = True, content = ''No session ID available'',
                    data = None, error = None\<rparr>, s)
         else (case runBdCommand (''log --session '' @ template sessionId) s of
                 (output, s') \<Rightarrow>
                   (Inr \<lparr>handled = True, content = output, data = None, error = None\<rparr>, s'))) \<rparr>,
     \<lparr> name = ''before'', aliases = [''b''],
       description = ''Show events before this timestamp'',
       handler = (\<lambda>params s.
         case runBdCommand
                (''log --until '' @ template (property (contexts s context) ''timestamp'') @ '' --last 20'') s of
           (output, s') \<Rightarrow>
             (Inr \<lparr>handled = True, content = output, data = None, error = None\<rparr>, s')) \<rparr>,
     \<lparr> name = ''after'', aliases = [''a''],
       description = ''Show events after this timestamp'',
       handler = (\<lambda>params s.
         case runBdCommand
                (''log --since '' @ template (property (contexts s context) ''timestamp'') @ '' --last 20'') s of
           (output, s') \<Rightarrow>
             (Inr \<lparr>handled = True, content = output, data = None, error = None\<rparr>, s')) \<rparr> ]"


text \<open>
  \<^verbatim>\<open>handleQuery\<close> of a beads line, closed over its command list. The loop over the
  commands is \<open>find_command\<close>: the first command whose name or one of whose aliases is the
  command name. (\<open>split_spaces\<close> never returns the empty list; destructuring one would
  leave \<^verbatim>\<open>cmdName\<close> undefined, which equals no name and prints as \<^verbatim>\<open>undefined\<close>.)
\<close>

fun find_command :: "Command list \<Rightarrow> string \<Rightarrow> Command option" where
  "find_command [] cmdName = None"
| "find_command (cmd # cmds) cmdName =
     (if name cmd = cmdName \<or> cmdName \<in> set (aliases cmd) then Some cmd
      else find_command cmds cmdName)"

definition unknown_command :: "Command list \<Rightarrow> string \<Rightarrow> QueryResult" where
  "unknown_command commands cmdName =
     \<lparr>handled = False, content = [], data = None,
      error = Some (''Unknown command: '' @ cmdName @ ''. Try: '' @ join '', '' (map name commands))\<rparr>"

definition beads_handleQuery :: "Command list \<Rightarrow> string \<Rightarrow> QueryResult io" where
  "beads_handleQuery commands input s =
     (let trimmed = toLowerCase (trim input) in
      case split_spaces trimmed of
        [] \<Rightarrow> (Inr (unknown_command commands ''undefined''), s)
      | cmdName # args \<Rightarrow>
          (let params = join '' '' args in
           case find_command commands cmdName of
             Some cmd \<Rightarrow> handler cmd params s
           | None \<Rightarrow> (Inr (unknown_command commands cmdName), s)))"

text \<open>
  \<^verbatim>\<open>BeadsContext\<close>: the six fields \<^verbatim>\<open>parse\<close> fills in. The object literal becomes a
  context object in the store, with its entries in the order the literal lists them.
\<close>

record BeadsContext =
  timestamp :: string
  eventCode :: string
  issueId :: string
  agentId :: string
  sessionId :: string
  details :: string

definition entries :: "BeadsContext \<Rightarrow> props" where
  "entries c =
     [(''timestamp'', timestamp c), (''eventCode'', eventCode c), (''issueId'', issueId c),
      (''agentId'', agentId c), (''sessionId'', sessionId c), (''details'', details c)]"

text \<open>
  \<^verbatim>\<open>createActionableLogLine(raw, context)\<close>. The object literal \<^verbatim>\<open>parse\<close> builds just
  before the call arrives as a record and is put in the store here, as the context object;
  the commands are created over its reference, and the \<^verbatim>\<open>source\<close> object and the line
  object are allocated. \<^verbatim>\<open>source.id\<close> is \<^verbatim>\<open>context.issueId || context.eventCode\<close>.
\<close>

definition createActionableLogLine :: "string \<Rightarrow> BeadsContext \<Rightarrow> state \<Rightarrow> ActionableLogLine \<times> state" where
  "createActionableLogLine rawLine c s =
     (case new_context (entries c) s of (context, s1) \<Rightarrow>
      let commands = createBeadsCommands context in
      case new_source \<lparr>source_type = ''beads'',
                       source_id = (if issueId c \<noteq> [] then issueId c else eventCode c),
                       source_context = context\<rparr> s1 of (src, s2) \<Rightarrow>
      case new_line \<lparr>line_timestamp = timestamp c, line_message = eventCode c,
                     line_raw = rawLine, line_source = src\<rparr> s2 of (ln, s3) \<Rightarrow>
      (\<lparr>self = ln, availableCommands = commands,
        handleQuery = beads_handleQuery commands\<rparr>, s3))"

text \<open>
  \<^verbatim>\<open>BeadsAdapter.parse\<close>. The argument is a string, so of the first guard only the test for
  the empty string is left. After the length check the first five pieces exist.
\<close>

definition BeadsAdapter_parse :: "string \<Rightarrow> ActionableLogLine option io" where
  "BeadsAdapter_parse rawLine s =
     (if rawLine = [] then (Inr None, s)
      else
        let parts = split (CHR ''|'') rawLine in
        if length parts < 5 then (Inr None, s)
        else
          let timestamp' = parts ! 0; eventCode' = parts ! 1; issueId' = parts ! 2;
              agentId' = parts ! 3; sessionId' = parts ! 4; detailParts = drop 5 parts
          in
          if timestamp' = [] \<or> \<not> match_timestamp timestamp' then (Inr None, s)
          else if eventCode' = [] \<or> CHR ''.'' \<notin> set eventCode' then (Inr None, s)
          else
            (case createActionableLogLine rawLine
                    \<lparr>timestamp = timestamp', eventCode = eventCode',
                     issueId = (if issueId' \<noteq> [] then issueId' else ''none''),
                     agentId = agentId', sessionId = sessionId',
                     details = join ''|'' detailParts\<rparr> s of
               (line, s') \<Rightarrow> (Inr (Some line), s')))"


section \<open>The query interpreter\<close>

text \<open>\<^verbatim>\<open>defaultFallbackConfig\<close> and \<^verbatim>\<open>configureClaudeFallback\<close>.\<close>

definition defaultFallbackConfig :: ClaudeFallbackConfig where
  "defaultFallbackConfig = \<lparr>enabled = False, fallback_handler = None\<rparr>"

definition configureClaudeFallback :: "ClaudeFallbackConfig \<Rightarrow> state \<Rightarrow> state" where
  "configureClaudeFallback config s = s\<lparr>fallbackConfig := config\<rparr>"

text \<open>
  \<^verbatim>\<open>formatContextForClaude\<close>: reads the line object, its \<^verbatim>\<open>source\<close> object and the
  context object from the store and builds the context string.
\<close>

definition newline :: string where
  "newline = [CHR 0x0A]"

definition formatContextForClaude :: "ActionableLogLine \<Rightarrow> state \<Rightarrow> string" where
  "formatContextForClaude line s =
     (let obj = lines s (self line);
          src = sources s (line_source obj);
          ctx = contexts s (source_context src)
      in ''Log line context:'' @ newline
         @ ''- Type: '' @ source_type src @ newline
         @ ''- Timestamp: '' @ line_timestamp obj @ newline
         @ ''- Message: '' @ line_message obj @ newline
         @ ''- ID: '' @ source_id src @ newline
         @ concat (map (\<lambda>(key, v). if v \<noteq> [] \<and> v \<noteq> ''none''
                                    then ''- '' @ key @ '': '' @ v @ newline else []) ctx)
         @ newline @ ''Available commands: ''
         @ join '', '' (map (\<lambda>c. name c @ '' ('' @ description c @ '')'') (availableCommands line)))"

text \<open>
  \<^verbatim>\<open>interpret\<close>, here \<open>interpret_query\<close>. A value thrown by \<^verbatim>\<open>line.handleQuery\<close> is not caught. The variable
  \<^verbatim>\<open>fallbackConfig\<close> is read after \<^verbatim>\<open>handleQuery\<close> has settled. The call of the handler
  is recorded in the trace; what it throws is caught and its \<^verbatim>\<open>message\<close> rendered in
  the template literal. When that value is \<^verbatim>\<open>null\<close> or \<^verbatim>\<open>undefined\<close>, reading
  \<^verbatim>\<open>err.message\<close> inside the \<^verbatim>\<open>catch\<close> clause throws, and nothing catches that.
\<close>

definition interpret_query :: "ActionableLogLine \<Rightarrow> string \<Rightarrow> QueryResult io" where
  "interpret_query line input s =
     (case handleQuery line input s of
        (Inl e, s1) \<Rightarrow> (Inl e, s1)
      | (Inr result, s1) \<Rightarrow>
          if handled result then (Inr result, s1)
          else if enabled (fallbackConfig s1) then
            (case fallback_handler (fallbackConfig s1) of
               Some h \<Rightarrow>
                 (let context = formatContextForClaude line s1;
                      s2 = s1\<lparr>events := events s1 @ [FallbackCall context input]\<rparr>
                  in case h context input of
                       Inr response \<Rightarrow>
                         (Inr \<lparr>handled = True, content = response, data = None, error = None\<rparr>, s2)
                     | Inl ThrownNull \<Rightarrow> (Inl (TypeError ''null'' ''message''), s2)
                     | Inl ThrownUndefined \<Rightarrow> (Inl (TypeError ''undefined'' ''message''), s2)
                     | Inl (Thrown msg) \<Rightarrow>
                         (Inr \<lparr>handled = False, content = [], data = None,
                               error = Some (''Claude fallback failed: '' @ template msg)\<rparr>,
                          s2))
             | None \<Rightarrow> (Inr result, s1))
          else (Inr result, s1))"

text \<open>
  \<^verbatim>\<open>parseCommand\<close>. The regular expression \<^verbatim>\<open>/^(\w+)(?:\s+(.*))?$/\<close> (no flags) is matched
  against the trimmed input by \<open>match_command\<close>, which returns the two groups.
  Group 1 takes the longest run of word characters, and giving back any of them fails, since
  a word character would follow where white space or the end is required. If the input ends
  there, the optional part is skipped and group 2 is undefined. Otherwise white space must
  follow; \<^verbatim>\<open>\s+\<close> takes the whole run, and group 2 is the rest up to the end of the input,
  which \<^verbatim>\<open>.*\<close> can cover only if it holds no line terminator (giving back white space
  leaves the same rest to cover).
\<close>

definition match_command :: "string \<Rightarrow> (string \<times> string option) option" where
  "match_command s =
     (let w = takeWhile is_word s; r = dropWhile is_word s in
      if w = [] then None
      else if r = [] then Some (w, None)
      else if \<not> is_space (hd r) then None
      else
        let rest = dropWhile is_space r in
        if \<exists>c \<in> set rest. is_line_terminator c then None
        else Some (w, Some rest))"

record ParsedCommand =
  command :: string
  params :: string

definition parseCommand :: "string \<Rightarrow> ParsedCommand option" where
  "parseCommand input =
     (let trimmed = trim input in
      if trimmed = [] then None
      else
        case match_command trimmed of
          None \<Rightarrow> None
        | Some (m1, m2) \<Rightarrow>
            Some \<lparr>command = toLowerCase m1,
                  params = (case m2 of None \<Rightarrow> [] | Some p \<Rightarrow> trim p)\<rparr>)"

section \<open>The adapter registry\<close>

text \<open>
  \<^verbatim>\<open>SourceAdapter\<close>, as far as the registry uses it: the type name and \<^verbatim>\<open>parse\<close>, which
  may throw.
\<close>

record SourceAdapter =
  adapter_type :: string
  adapter_parse :: "string \<Rightarrow> ActionableLogLine option io"

definition BeadsAdapter :: SourceAdapter where
  "BeadsAdapter = \<lparr>adapter_type = ''beads'', adapter_parse = BeadsAdapter_parse\<rparr>"

text \<open>
  A JavaScript \<^verbatim>\<open>Map\<close> is the list of its entries in iteration order: \<^verbatim>\<open>set\<close> on
  a key that is present replaces the value where the entry stands, \<^verbatim>\<open>set\<close> on a new key
  appends an entry.
\<close>

type_synonym ('k, 'v) js_map = "('k \<times> 'v) list"

fun Map_set :: "'k \<Rightarrow> 'v \<Rightarrow> ('k, 'v) js_map \<Rightarrow> ('k, 'v) js_map" where
  "Map_set k v [] = [(k, v)]"
| "Map_set k v ((k', v') # m) = (if k' = k then (k, v) # m else (k', v') # Map_set k v m)"

fun Map_get :: "('k, 'v) js_map \<Rightarrow> 'k \<Rightarrow> 'v option" where
  "Map_get [] k = None"
| "Map_get ((k', v') # m) k = (if k' = k then Some v' else Map_get m k)"

definition Map_has :: "('k, 'v) js_map \<Rightarrow> 'k \<Rightarrow> bool" where
  "Map_has m k = (Map_get m k \<noteq> None)"

definition Map_keys :: "('k, 'v) js_map \<Rightarrow> 'k list" where
  "Map_keys m = map fst m"

definition Map_values :: "('k, 'v) js_map \<Rightarrow> 'v list" where
  "Map_values m = map snd m"

text \<open>\<^verbatim>\<open>DefaultAdapterRegistry\<close>: its private map, empty at construction, and its methods.\<close>

record DefaultAdapterRegistry =
  adapters :: "(string, SourceAdapter) js_map"

definition new_DefaultAdapterRegistry :: DefaultAdapterRegistry where
  "new_DefaultAdapterRegistry = \<lparr>adapters = []\<rparr>"

definition register :: "SourceAdapter \<Rightarrow> DefaultAdapterRegistry \<Rightarrow> state \<Rightarrow> DefaultAdapterRegistry \<times> state" where
  "register adapter reg s =
     (let s' = (if Map_has (adapters reg) (adapter_type adapter)
                then s\<lparr>events := events s @
                       [Warn (''Adapter '' @ [CHR 0x27] @ adapter_type adapter @ [CHR 0x27]
                              @ '' already registered, replacing'')]\<rparr>
                else s)
      in (reg\<lparr>adapters := Map_set (adapter_type adapter) adapter (adapters reg)\<rparr>, s'))"

definition get :: "DefaultAdapterRegistry \<Rightarrow> string \<Rightarrow> SourceAdapter option" where
  "get reg type = Map_get (adapters reg) type"

text \<open>The loop of \<^verbatim>\<open>parse\<close> over \<^verbatim>\<open>adapters.values()\<close>; a throwing adapter ends it.\<close>

fun try_adapters :: "SourceAdapter list \<Rightarrow> string \<Rightarrow> ActionableLogLine option io" where
  "try_adapters [] rawLine s = (Inr None, s)"
| "try_adapters (adapter # rest) rawLine s =
     (case adapter_parse adapter rawLine s of
        (Inl e, s') \<Rightarrow> (Inl e, s')
      | (Inr (Some result), s') \<Rightarrow> (Inr (Some result), s')
      | (Inr None, s') \<Rightarrow> try_adapters rest rawLine s')"

definition parse :: "DefaultAdapterRegistry \<Rightarrow> string \<Rightarrow> ActionableLogLine option io" where
  "parse reg rawLine s = try_adapters (Map_values (adapters reg)) rawLine s"

definition types :: "DefaultAdapterRegistry \<Rightarrow> string list" where
  "types reg = Map_keys (adapters reg)"


text \<open>
  A sequence of \<^verbatim>\<open>register\<close> calls on one registry, first to last.
\<close>

fun register_all :: "SourceAdapter list \<Rightarrow> DefaultAdapterRegistry \<Rightarrow> state \<Rightarrow> DefaultAdapterRegistry \<times> state" where
  "register_all [] reg s = (reg, s)"
| "register_all (adapter # rest) reg s =
     (case register adapter reg s of (reg', s') \<Rightarrow> register_all rest reg' s')"

text \<open>
  Two notions in which the claims about the registry are stated, both about a sequence of
  registrations alone: the type names in the order of their first occurrence, and the
  adapter registered last under a type name.
\<close>

fun first_occurrences :: "'a list \<Rightarrow> 'a list" where
  "first_occurrences [] = []"
| "first_occurrences (x # xs) = x # removeAll x (first_occurrences xs)"

fun last_registered :: "string \<Rightarrow> SourceAdapter list \<Rightarrow> SourceAdapter option" where
  "last_registered type [] = None"
| "last_registered type (adapter # rest) =
     (case last_registered type rest of
        Some later \<Rightarrow> Some later
      | None \<Rightarrow> if adapter_type adapter = type then Some adapter else None)"

section \<open>Notions used in the statements\<close>

text \<open>
  The white-space-delimited tokens of a string: white space is skipped, and every maximal
  run of other characters is one token.
\<close>

function tokens :: "string \<Rightarrow> string list" where
  "tokens [] = []"
| "tokens (c # cs) =
     (if is_space c then tokens cs
      else (c # takeWhile (\<lambda>x. \<not> is_space x) cs) # tokens (dropWhile (\<lambda>x. \<not> is_space x) cs))"
  by pat_completeness auto
termination
  by (relation "measure length") (auto simp: less_Suc_eq_le length_dropWhile_le)

text \<open>
  What running one \<^verbatim>\<open>bd\<close> command from a handler amounts to, seen from outside.
  \<open>bd_content\<close> is the text shown for a settled command: its trimmed standard output, or,
  when it failed, the error's \<^verbatim>\<open>stderr\<close> if that is a non-empty string, else its
  \<^verbatim>\<open>message\<close> if that is one, else \<^verbatim>\<open>Command failed\<close>. \<open>ran_bd args s\<close> is the outcome
  of a handler that, in state \<open>s\<close>, ran \<^verbatim>\<open>bd args\<close> and nothing else: it returns that text
  as the content of a handled result, and the command has joined the trace.
\<close>

definition bd_content :: "ExecError + string \<Rightarrow> string" where
  "bd_content settled =
     (case settled of
        Inr stdout \<Rightarrow> trim stdout
      | Inl err \<Rightarrow>
          (case stderr err of
             Some (x # xs) \<Rightarrow> x # xs
           | _ \<Rightarrow> (case exec_message err of Some (m # ms) \<Rightarrow> m # ms | _ \<Rightarrow> ''Command failed'')))"

definition ran_bd :: "string \<Rightarrow> state \<Rightarrow> (thrown + QueryResult) \<times> state" where
  "ran_bd args s =
     (Inr \<lparr>handled = True, content = bd_content (execAsync s (''bd '' @ args)),
           data = None, error = None\<rparr>,
      s\<lparr>events := events s @ [Exec (''bd '' @ args)]\<rparr>)"

text \<open>
  What may happen to a line after it has been parsed, in any order: a call of
  \<^verbatim>\<open>interpret\<close> on it, a call of \<^verbatim>\<open>configureClaudeFallback\<close>, a change of the
  environment's answers to shell commands.
\<close>

datatype action =
  Interpret string
| Configure ClaudeFallbackConfig
| Environment "string \<Rightarrow> ExecError + string"

fun run_actions :: "ActionableLogLine \<Rightarrow> action list \<Rightarrow> state \<Rightarrow> state" where
  "run_actions line [] s = s"
| "run_actions line (Interpret input # rest) s =
     run_actions line rest (snd (interpret_query line input s))"
| "run_actions line (Configure config # rest) s =
     run_actions line rest (configureClaudeFallback config s)"
| "run_actions line (Environment env # rest) s =
     run_actions line rest (s\<lparr>execAsync := env\<rparr>)"

section \<open>Example inputs\<close>

text \<open>
  The state of a freshly started program in a given environment: nothing allocated, the
  default fallback configuration, no interaction performed. \<open>bd_missing\<close> is an
  environment without the \<^verbatim>\<open>bd\<close> tool, where every command fails; \<open>bd_echo\<close> is one where
  the tool prints its command line back.
\<close>

definition initial_state :: "(string \<Rightarrow> ExecError + string) \<Rightarrow> state" where
  "initial_state env =
     \<lparr>lines = (\<lambda>r. \<lparr>line_timestamp = [], line_message = [], line_raw = [], line_source = 0\<rparr>),
      sources = (\<lambda>r. \<lparr>source_type = [], source_id = [], source_context = 0\<rparr>),
      contexts = (\<lambda>r. []),
      next_ref = 0,
      fallbackConfig = defaultFallbackConfig,
      events = [],
      execAsync = env\<rparr>"

definition bd_missing :: "string \<Rightarrow> ExecError + string" where
  "bd_missing cmd = Inl (ExecError (Some ''/bin/sh: 1: bd: not found'') (Some (''Command failed: '' @ cmd)))"

definition bd_echo :: "string \<Rightarrow> ExecError + string" where
  "bd_echo cmd = Inr (cmd @ newline)"

definition example_line_no_issue :: string where
  "example_line_no_issue =
     ''2025-01-15T15:04:02.123Z|sk.bootup.activated|none|steve|sess-abc123|skill=beads-bootup''"

text \<open>
  Two adapters beside the beads adapter: one that matches no line, one whose \<^verbatim>\<open>parse\<close>
  throws.
\<close>

definition null_adapter :: "string \<Rightarrow> SourceAdapter" where
  "null_adapter type = \<lparr>adapter_type = type, adapter_parse = (\<lambda>rawLine s. (Inr None, s))\<rparr>"

definition throwing_adapter :: "string \<Rightarrow> SourceAdapter" where
  "throwing_adapter type =
     \<lparr>adapter_type = type, adapter_parse = (\<lambda>rawLine s. (Inl (Thrown (Some ''Parse failed'')), s))\<rparr>"

text \<open>
  A line none of whose queries is handled, a fallback handler that answers, one that
  rejects with an error, and one that rejects with no value (\<^verbatim>\<open>() => Promise.reject()\<close>).
\<close>

definition unhandled_line :: ActionableLogLine where
  "unhandled_line =
     \<lparr>self = 0, availableCommands = [],
      handleQuery = (\<lambda>input s. (Inr \<lparr>handled = False, content = [], data = None,
                                       error = Some ''No commands''\<rparr>, s))\<rparr>"

definition resp_handler :: "string \<Rightarrow> string \<Rightarrow> thrown + string" where
  "resp_handler context query = Inr ''resp''"

definition failing_handler :: "string \<Rightarrow> string \<Rightarrow> thrown + string" where
  "failing_handler context query = Inl (Thrown (Some ''API unavailable''))"

definition rejecting_handler :: "string \<Rightarrow> string \<Rightarrow> thrown + string" where
  "rejecting_handler context query = Inl ThrownUndefined"

definition example_line :: string where
  "example_line =
     ''2025-01-15T15:04:03.456Z|bd.issue.create|bd-97ux|steve|sess-abc123|title=Implement ALLP''"

section \<open>Parsing a beads line\<close>

lemma split_not_Nil: "split d s \<noteq> []"
  by (induction s) (auto split: list.splits)

lemma split_no_separator: "d \<notin> set x \<Longrightarrow> split d x = [x]"
  by (induction x) auto

lemma split_append_separator:
  "d \<notin> set x \<Longrightarrow> split d (x @ d # rest) = x # split d rest"
  by (induction x) auto

text \<open>
  Splitting undoes joining: a string written as pieces without the separator, joined by
  the separator, splits into exactly these pieces. And every string is such a join, of the
  pieces \<open>split\<close> finds.
\<close>

lemma split_join:
  "fs \<noteq> [] \<Longrightarrow> \<forall>f \<in> set fs. d \<notin> set f \<Longrightarrow> split d (join [d] fs) = fs"
proof (induction "[d]" fs rule: join.induct)
  case 1
  then show ?case by simp
next
  case (2 x)
  then show ?case by (simp add: split_no_separator)
next
  case (3 x y ys)
  then show ?case by (simp add: split_append_separator)
qed

lemma join_split: "join [d] (split d s) = s"
proof (induction s)
  case Nil
  show ?case by simp
next
  case (Cons c cs)
  obtain p ps where pieces: "split d cs = p # ps"
    using split_not_Nil by (cases "split d cs") auto
  show ?case
  proof (cases "c = d")
    case True
    with pieces Cons show ?thesis by simp
  next
    case False
    with pieces Cons show ?thesis by (cases ps) auto
  qed
qed

lemma split_pieces_free: "\<forall>f \<in> set (split d s). d \<notin> set f"
  by (induction s) (auto split: list.splits)

lemma example_line_parsed:
  "\<exists>line s1. BeadsAdapter_parse example_line (initial_state env) = (Inr (Some line), s1)"
  by (simp add: BeadsAdapter_parse_def example_line_def is_digit_def
      Let_def createActionableLogLine_def new_context_def new_source_def new_line_def)

text \<open>
  C1. \<^verbatim>\<open>BeadsAdapter.parse\<close> never throws, whatever the string; and it returns
  \<^verbatim>\<open>null\<close>, leaving the state as it was, for every input that violates the grammar. The
  input is read as its pipe-separated fields \<open>fs\<close> (pieces without a pipe, joined by pipes);
  it violates the grammar when it is empty, or consists of white space only, or has fewer
  than five fields, or its first field does not start with \<^verbatim>\<open>YYYY-MM-DDT\<close>, or its second
  field is empty or has no dot.
\<close>

theorem BeadsAdapter_parse_rejects_malformed:
  "(\<exists>r. fst (BeadsAdapter_parse rawLine s) = Inr r) \<and>
   (rawLine = join ''|'' fs \<and> fs \<noteq> [] \<and> (\<forall>f \<in> set fs. CHR ''|'' \<notin> set f) \<and>
    (rawLine = [] \<or> (\<forall>c \<in> set rawLine. is_space c) \<or> length fs < 5
      \<or> \<not> match_timestamp (fs ! 0) \<or> fs ! 1 = [] \<or> CHR ''.'' \<notin> set (fs ! 1))
    \<longrightarrow> BeadsAdapter_parse rawLine s = (Inr None, s))"
proof (intro conjI impI, goal_cases)
  case 1
  show ?case
    by (simp add: BeadsAdapter_parse_def Let_def split: prod.splits)
next
  case 2
  then have violation: "rawLine = [] \<or> (\<forall>c \<in> set rawLine. is_space c) \<or> length fs < 5
      \<or> \<not> match_timestamp (fs ! 0) \<or> fs ! 1 = [] \<or> CHR ''.'' \<notin> set (fs ! 1)"
    by blast
  from 2 have parts: "split (CHR ''|'') rawLine = fs"
    using split_join [of fs "CHR ''|''"] by simp
  have "\<not> is_space (CHR ''|'')"
    by (simp add: is_space_def)
  then have "(\<forall>c \<in> set rawLine. is_space c) \<Longrightarrow> CHR ''|'' \<notin> set rawLine"
    by auto
  then have "(\<forall>c \<in> set rawLine. is_space c) \<Longrightarrow> length fs < 5"
    using parts split_no_separator [of "CHR ''|''" rawLine] by auto
  with violation show ?case
    by (auto simp: BeadsAdapter_parse_def Let_def parts)
qed

theorem BeadsAdapter_parse_rejects_malformed_witness:
  "BeadsAdapter_parse ''not-a-date|x.y|a|b|c'' (initial_state bd_missing)
     = (Inr None, initial_state bd_missing)
   \<and> BeadsAdapter_parse ''2025-01-15T15:04:03Z|nodot|a|b|c'' (initial_state bd_missing)
     = (Inr None, initial_state bd_missing)"
proof
  show "BeadsAdapter_parse ''not-a-date|x.y|a|b|c'' (initial_state bd_missing)
     = (Inr None, initial_state bd_missing)"
    using BeadsAdapter_parse_rejects_malformed
      [of "''not-a-date|x.y|a|b|c''" "initial_state bd_missing"
          "[''not-a-date'', ''x.y'', ''a'', ''b'', ''c'']"]
    by simp
  show "BeadsAdapter_parse ''2025-01-15T15:04:03Z|nodot|a|b|c'' (initial_state bd_missing)
     = (Inr None, initial_state bd_missing)"
    using BeadsAdapter_parse_rejects_malformed
      [of "''2025-01-15T15:04:03Z|nodot|a|b|c''" "initial_state bd_missing"
          "[''2025-01-15T15:04:03Z'', ''nodot'', ''a'', ''b'', ''c'']"]
    by simp
qed

text \<open>
  C2. For every input accepted by the grammar (at least five pipe-separated fields, the
  first starting with \<^verbatim>\<open>YYYY-MM-DDT\<close>, the second containing a dot),
  \<^verbatim>\<open>BeadsAdapter.parse\<close> returns a line whose \<^verbatim>\<open>message\<close> is the \<open>EVENT_CODE\<close> field,
  whose \<^verbatim>\<open>raw\<close> is the input and whose \<^verbatim>\<open>source.id\<close> is the \<open>ENTITY_ID\<close> field, or
  \<^verbatim>\<open>"none"\<close> when that field is empty.
\<close>

theorem BeadsAdapter_parse_accepts:
  assumes raw: "rawLine = join ''|''
                  (TIMESTAMP # EVENT_CODE # ENTITY_ID # AGENT_ID # SESSION_ID # DETAILS)"
    and free: "\<forall>f \<in> set (TIMESTAMP # EVENT_CODE # ENTITY_ID # AGENT_ID # SESSION_ID # DETAILS).
                 CHR ''|'' \<notin> set f"
    and ts: "match_timestamp TIMESTAMP"
    and ec: "CHR ''.'' \<in> set EVENT_CODE"
  shows "\<exists>line s'. BeadsAdapter_parse rawLine s = (Inr (Some line), s')
      \<and> line_message (lines s' (self line)) = EVENT_CODE
      \<and> line_raw (lines s' (self line)) = rawLine
      \<and> source_id (sources s' (line_source (lines s' (self line))))
          = (if ENTITY_ID = [] then ''none'' else ENTITY_ID)"
proof -
  have parts: "split (CHR ''|'') rawLine
      = TIMESTAMP # EVENT_CODE # ENTITY_ID # AGENT_ID # SESSION_ID # DETAILS"
    unfolding raw using free by (intro split_join) simp_all
  have nonempty: "rawLine \<noteq> []"
    using parts by auto
  have ts': "TIMESTAMP \<noteq> []"
    using ts by auto
  have ec': "EVENT_CODE \<noteq> []"
    using ec by auto
  show ?thesis
    using ts ec ts' ec' nonempty
    by (simp add: BeadsAdapter_parse_def parts Let_def createActionableLogLine_def
        new_context_def new_source_def new_line_def)
qed

theorem BeadsAdapter_parse_accepts_witness:
  "\<exists>line s'. BeadsAdapter_parse example_line (initial_state bd_missing) = (Inr (Some line), s')
      \<and> line_message (lines s' (self line)) = ''bd.issue.create''
      \<and> line_raw (lines s' (self line)) = example_line
      \<and> source_id (sources s' (line_source (lines s' (self line)))) = ''bd-97ux''"
  using BeadsAdapter_parse_accepts
    [of example_line "''2025-01-15T15:04:03.456Z''" "''bd.issue.create''" "''bd-97ux''"
        "''steve''" "''sess-abc123''" "[''title=Implement ALLP'']" "initial_state bd_missing"]
  by (simp add: example_line_def is_digit_def)


section \<open>Parsing a command\<close>

lemma space_not_word: "is_space c \<Longrightarrow> \<not> is_word c"
  by (auto simp: is_space_def is_word_def)

lemma match_command_word:
  "w \<noteq> [] \<Longrightarrow> \<forall>c \<in> set w. is_word c \<Longrightarrow> match_command w = Some (w, None)"
  by (simp add: match_command_def Let_def takeWhile_eq_all_conv [THEN iffD2]
      dropWhile_eq_Nil_conv [THEN iffD2])

lemma match_command_word_rest:
  assumes "w \<noteq> []" "\<forall>c \<in> set w. is_word c" "ws \<noteq> []" "\<forall>c \<in> set ws. is_space c"
    and "\<forall>c \<in> set rem. \<not> is_line_terminator c"
  shows "match_command (w @ ws @ rem) = Some (w, Some (dropWhile is_space rem))"
proof -
  obtain c ws' where ws: "ws = c # ws'"
    using assms(3) by (cases ws) auto
  then have c: "is_space c" "\<not> is_word c"
    using assms(4) space_not_word by auto
  have tw: "takeWhile is_word (w @ ws @ rem) = w"
    using assms(2) c ws by (simp add: takeWhile_tail)
  have dw: "dropWhile is_word (w @ ws @ rem) = ws @ rem"
    using assms(2) c ws by (simp add: dropWhile_append3)
  have ds: "dropWhile is_space (ws @ rem) = dropWhile is_space rem"
    using assms(4) by (simp add: dropWhile_append2)
  have hd: "is_space (hd (ws @ rem))"
    using c ws by simp
  have "\<forall>c \<in> set (dropWhile is_space rem). \<not> is_line_terminator c"
    using assms(5) set_dropWhileD by fast
  then show ?thesis
    using assms(1,3) hd by (simp add: match_command_def tw dw ds Let_def)
qed

lemma trim_dropWhile: "trim (dropWhile is_space r) = trim r"
  by (simp add: trim_def)

lemma match_command_not_word:
  assumes "\<forall>c \<in> set w. is_word c" "\<not> is_word c" "\<not> is_space c"
  shows "match_command (w @ c # rest) = None"
proof -
  have tw: "takeWhile is_word (w @ c # rest) = w"
    using assms by (simp add: takeWhile_tail)
  have dw: "dropWhile is_word (w @ c # rest) = c # rest"
    using assms by (simp add: dropWhile_append3)
  show ?thesis
    using assms by (simp add: match_command_def tw dw Let_def)
qed

text \<open>
  C7, as stated, fails: \<^verbatim>\<open>parseCommand\<close> returns \<^verbatim>\<open>null\<close> for more inputs than those
  whose trim is empty. The input \<^verbatim>\<open>"?"\<close> has a non-empty trim and does not start with a word
  character, so the regular expression does not match and the result is \<^verbatim>\<open>null\<close>.
\<close>

theorem parseCommand_null_iff_counterexample:
  "\<not> (parseCommand ''?'' = None \<longleftrightarrow> trim ''?'' = [])"
  by (simp add: parseCommand_def trim_def is_space_def match_command_def is_word_def)

text \<open>
  C7, amended. \<^verbatim>\<open>parseCommand\<close> returns \<^verbatim>\<open>null\<close> when the trimmed input is empty, and
  also when its leading run of word characters (possibly empty) is followed by a character
  that is neither a word character nor white space. When the trimmed input is a non-empty
  run of word characters alone, the result is that run in lower case with empty
  parameters; when such a run is followed by white space (of any kind, line breaks
  included) and then a remainder without line terminators, the result is the run in lower
  case with the trimmed remainder as parameters.
\<close>

theorem parseCommand_word_token:
  "(trim input = [] \<longrightarrow> parseCommand input = None) \<and>
   (trim input = w @ c # rest \<and> (\<forall>x \<in> set w. is_word x) \<and> \<not> is_word c \<and> \<not> is_space c
      \<longrightarrow> parseCommand input = None) \<and>
   (trim input = w \<and> w \<noteq> [] \<and> (\<forall>x \<in> set w. is_word x)
      \<longrightarrow> parseCommand input = Some \<lparr>command = toLowerCase w, params = []\<rparr>) \<and>
   (trim input = w @ ws @ rem \<and> w \<noteq> [] \<and> (\<forall>x \<in> set w. is_word x)
      \<and> ws \<noteq> [] \<and> (\<forall>x \<in> set ws. is_space x) \<and> (\<forall>x \<in> set rem. \<not> is_line_terminator x)
      \<longrightarrow> parseCommand input = Some \<lparr>command = toLowerCase w, params = trim rem\<rparr>)"
proof (intro conjI impI, goal_cases)
  case 1
  then show ?case by (simp add: parseCommand_def)
next
  case 2
  then show ?case
    using match_command_not_word [of w c rest] by (simp add: parseCommand_def)
next
  case 3
  then show ?case
    using match_command_word [of w] by (simp add: parseCommand_def)
next
  case 4
  then show ?case
    using match_command_word_rest [of w ws rem] by (simp add: parseCommand_def trim_dropWhile)
qed

theorem parseCommand_word_token_witness:
  "parseCommand ''   '' = None \<and>
   parseCommand ''show-me'' = None \<and>
   parseCommand ''SHOW'' = Some \<lparr>command = ''show'', params = []\<rparr> \<and>
   parseCommand ''  SHOW  param  '' = Some \<lparr>command = ''show'', params = ''param''\<rparr> \<and>
   parseCommand (''show'' @ [CHR 0x0A] @ ''b'') = Some \<lparr>command = ''show'', params = ''b''\<rparr>"
proof (intro conjI)
  have t1: "trim ''   '' = []"
    by (simp add: trim_def is_space_def)
  show "parseCommand ''   '' = None"
    using parseCommand_word_token [of "''   ''"] t1 by simp
  have t2: "trim ''show-me'' = ''show'' @ CHR ''-'' # ''me''"
    by (simp add: trim_def is_space_def)
  show "parseCommand ''show-me'' = None"
    using parseCommand_word_token [of "''show-me''" "''show''" "CHR ''-''" "''me''"] t2
    by (simp add: is_word_def is_space_def)
  have t3: "trim ''SHOW'' = ''SHOW''"
    by (simp add: trim_def is_space_def)
  show "parseCommand ''SHOW'' = Some \<lparr>command = ''show'', params = []\<rparr>"
    using parseCommand_word_token [of "''SHOW''" "''SHOW''"] t3
    by (simp add: is_word_def toLowerCase_def toLowerCase_char_def)
  have t4: "trim ''  SHOW  param  '' = ''SHOW'' @ ''  '' @ ''param''"
    by (simp add: trim_def is_space_def)
  have t5: "trim ''param'' = ''param''"
    by (simp add: trim_def is_space_def)
  show "parseCommand ''  SHOW  param  '' = Some \<lparr>command = ''show'', params = ''param''\<rparr>"
    using parseCommand_word_token [of "''  SHOW  param  ''" "''SHOW''" _ _ "''  ''" "''param''"]
      t4 t5
    by (simp add: is_word_def is_space_def is_line_terminator_def toLowerCase_def
        toLowerCase_char_def)
  have t6: "trim (''show'' @ [CHR 0x0A] @ ''b'') = ''show'' @ [CHR 0x0A] @ ''b''"
    by (simp add: trim_def is_space_def)
  have t7: "trim ''b'' = ''b''"
    by (simp add: trim_def is_space_def)
  show "parseCommand (''show'' @ [CHR 0x0A] @ ''b'') = Some \<lparr>command = ''show'', params = ''b''\<rparr>"
    using parseCommand_word_token [of "''show'' @ [CHR 0x0A] @ ''b''" "''show''" _ _
        "[CHR 0x0A]" "''b''"] t6 t7
    by (simp add: is_word_def is_space_def is_line_terminator_def toLowerCase_def
        toLowerCase_char_def)
qed


section \<open>The registry\<close>


lemma Map_keys_set:
  "Map_keys (Map_set k v m) = (if k \<in> set (Map_keys m) then Map_keys m else Map_keys m @ [k])"
  by (induction k v m rule: Map_set.induct) (force simp: Map_keys_def)+

lemma Map_get_set: "Map_get (Map_set k v m) k' = (if k' = k then Some v else Map_get m k')"
  by (induction m) auto

lemma Map_get_None: "Map_get m k = None \<longleftrightarrow> k \<notin> set (Map_keys m)"
  by (induction m k rule: Map_get.induct) (force simp: Map_keys_def)+

lemma Map_values_get:
  "distinct (Map_keys m) \<Longrightarrow> map Some (Map_values m) = map (Map_get m) (Map_keys m)"
proof (induction m)
  case Nil
  show ?case by (simp add: Map_values_def Map_keys_def)
next
  case (Cons p m)
  obtain k v where p: "p = (k, v)" by (cases p)
  with Cons.prems have k: "k \<notin> set (Map_keys m)" and d: "distinct (Map_keys m)"
    by (simp_all add: Map_keys_def)
  have "map (Map_get (p # m)) (Map_keys m) = map (Map_get m) (Map_keys m)"
    using k p by (intro map_cong) auto
  with Cons.IH [OF d] p show ?case
    by (simp add: Map_values_def Map_keys_def)
qed

lemma set_first_occurrences: "set (first_occurrences xs) = set xs"
  by (induction xs) auto

lemma distinct_first_occurrences: "distinct (first_occurrences xs)"
  by (induction xs) (auto simp: distinct_removeAll)

lemma first_occurrences_distinct: "distinct xs \<Longrightarrow> first_occurrences xs = xs"
  by (induction xs) (auto simp: set_first_occurrences)

lemma removeAll_first_occurrences_append:
  "removeAll x (first_occurrences (ys @ x # ts)) = removeAll x (first_occurrences (ys @ ts))"
proof (induction ys)
  case Nil
  show ?case by simp
next
  case (Cons y ys)
  have "removeAll x (removeAll y (first_occurrences (ys @ x # ts)))
      = removeAll y (removeAll x (first_occurrences (ys @ x # ts)))"
    by (rule removeAll_commute)
  also have "\<dots> = removeAll y (removeAll x (first_occurrences (ys @ ts)))"
    by (simp only: Cons.IH)
  also have "\<dots> = removeAll x (removeAll y (first_occurrences (ys @ ts)))"
    by (rule removeAll_commute)
  finally have step: "removeAll x (removeAll y (first_occurrences (ys @ x # ts)))
      = removeAll x (removeAll y (first_occurrences (ys @ ts)))" .
  show ?case
  proof (cases "x = y")
    case True
    with Cons.IH show ?thesis by simp
  next
    case False
    with step show ?thesis by simp
  qed
qed

lemma first_occurrences_append_mem:
  "x \<in> set ks \<Longrightarrow> first_occurrences (ks @ x # ts) = first_occurrences (ks @ ts)"
proof (induction ks)
  case Nil
  then show ?case by simp
next
  case (Cons k ks)
  show ?case
  proof (cases "k = x")
    case True
    then show ?thesis by (simp add: removeAll_first_occurrences_append)
  next
    case False
    with Cons show ?thesis by simp
  qed
qed


lemma register_adapters:
  "adapters (fst (register adapter reg s)) = Map_set (adapter_type adapter) adapter (adapters reg)"
  by (simp add: register_def Let_def)

lemma register_all_adapters:
  "adapters (fst (register_all as reg s))
     = fold (\<lambda>adapter. Map_set (adapter_type adapter) adapter) as (adapters reg)"
proof (induction as arbitrary: reg s)
  case Nil
  show ?case by simp
next
  case (Cons a as)
  obtain reg' s' where r: "register a reg s = (reg', s')"
    by (cases "register a reg s")
  then have "adapters reg' = Map_set (adapter_type a) a (adapters reg)"
    using register_adapters [of a reg s] by simp
  with Cons.IH [of reg' s'] r show ?case by simp
qed

lemma fold_Map_set_keys:
  "distinct (Map_keys m) \<Longrightarrow>
   Map_keys (fold (\<lambda>adapter. Map_set (adapter_type adapter) adapter) as m)
     = first_occurrences (Map_keys m @ map adapter_type as)"
proof (induction as arbitrary: m)
  case Nil
  then show ?case by (simp add: first_occurrences_distinct)
next
  case (Cons a as)
  let ?m = "Map_set (adapter_type a) a m"
  have d: "distinct (Map_keys ?m)"
    using Cons.prems by (simp add: Map_keys_set)
  show ?case
  proof (cases "adapter_type a \<in> set (Map_keys m)")
    case True
    with Cons.IH [OF d] show ?thesis
      by (simp add: Map_keys_set first_occurrences_append_mem)
  next
    case False
    with Cons.IH [OF d] show ?thesis
      by (simp add: Map_keys_set)
  qed
qed

lemma fold_Map_set_get:
  "Map_get (fold (\<lambda>adapter. Map_set (adapter_type adapter) adapter) as m) type
     = (case last_registered type as of Some adapter \<Rightarrow> Some adapter | None \<Rightarrow> Map_get m type)"
  by (induction as arbitrary: m) (auto simp: Map_get_set split: option.splits)

lemma try_adapters_append:
  "try_adapters pre rawLine s = (Inr None, s1) \<Longrightarrow>
   try_adapters (pre @ post) rawLine s = try_adapters post rawLine s1"
  by (induction pre arbitrary: s) (auto split: prod.splits sum.splits option.splits)

lemma try_adapters_none:
  "\<forall>a \<in> set as. \<forall>t. fst (adapter_parse a rawLine t) = Inr None \<Longrightarrow>
   fst (try_adapters as rawLine s) = Inr None"
proof (induction as arbitrary: s)
  case Nil
  show ?case by simp
next
  case (Cons a as)
  then have "fst (adapter_parse a rawLine s) = Inr None" by simp
  then obtain s' where "adapter_parse a rawLine s = (Inr None, s')"
    by (cases "adapter_parse a rawLine s") auto
  with Cons show ?case by simp
qed

lemma last_registered_distinct:
  "distinct (map adapter_type as) \<Longrightarrow>
   map (\<lambda>t. last_registered t as) (map adapter_type as) = map Some as"
proof (induction as)
  case Nil
  show ?case by simp
next
  case (Cons a as)
  have none: "last_registered (adapter_type a) as = None"
    using Cons.prems by (induction as) (auto split: option.splits)
  have "map (\<lambda>t. last_registered t (a # as)) (map adapter_type as)
      = map (\<lambda>t. last_registered t as) (map adapter_type as)"
    using Cons.prems by (intro map_cong) (auto split: option.splits)
  with Cons none show ?case by simp
qed


lemma reachable_registry:
  assumes "reg = fst (register_all as new_DefaultAdapterRegistry s0)"
  shows "types reg = first_occurrences (map adapter_type as)"
    and "get reg type = last_registered type as"
    and "map Some (Map_values (adapters reg)) = map (get reg) (types reg)"
proof -
  have a: "adapters reg = fold (\<lambda>adapter. Map_set (adapter_type adapter) adapter) as []"
    using assms register_all_adapters [of as new_DefaultAdapterRegistry s0]
    by (simp add: new_DefaultAdapterRegistry_def)
  show t: "types reg = first_occurrences (map adapter_type as)"
    using fold_Map_set_keys [of "[]" as] by (simp add: types_def a Map_keys_def)
  show "get reg type = last_registered type as"
    using fold_Map_set_get [of as "[]" type] by (simp add: get_def a split: option.splits)
  have "distinct (Map_keys (adapters reg))"
    using t distinct_first_occurrences [of "map adapter_type as"] by (simp add: types_def)
  then have "map Some (Map_values (adapters reg)) = map (Map_get (adapters reg)) (Map_keys (adapters reg))"
    by (rule Map_values_get)
  then show "map Some (Map_values (adapters reg)) = map (get reg) (types reg)"
    by (simp add: types_def get_def [abs_def])
qed

lemma try_adapters_rejecting:
  "\<forall>b \<in> set pre. \<forall>t. adapter_parse b rawLine t = (Inr None, t) \<Longrightarrow>
   try_adapters pre rawLine s = (Inr None, s)"
  by (induction pre) auto

lemma try_adapters_rejecting_state:
  "\<forall>b \<in> set pre. \<forall>t. fst (adapter_parse b rawLine t) = Inr None \<Longrightarrow>
   \<exists>s1. try_adapters pre rawLine s = (Inr None, s1)"
proof (induction pre arbitrary: s)
  case Nil
  show ?case by simp
next
  case (Cons b pre)
  then have "fst (adapter_parse b rawLine s) = Inr None" by simp
  then obtain s' where "adapter_parse b rawLine s = (Inr None, s')"
    by (cases "adapter_parse b rawLine s") auto
  with Cons show ?case by simp
qed

lemma try_adapters_decides:
  "fst (adapter_parse a rawLine s) \<noteq> Inr None \<Longrightarrow>
   try_adapters (a # post) rawLine s = adapter_parse a rawLine s"
  by (cases "adapter_parse a rawLine s") (auto split: sum.splits option.splits)

text \<open>
  C9. After any sequence of registrations on a new registry, \<^verbatim>\<open>types()\<close> lists the type
  names in the order of their first registration, and \<^verbatim>\<open>parse\<close> tries, in that same order,
  for each type name the adapter registered last under it. The order of trial is pinned by
  what \<^verbatim>\<open>parse\<close> returns. Let \<open>trial\<close> be that list of adapters. If the adapters standing
  before an adapter \<open>a\<close> in it return \<^verbatim>\<open>null\<close> on the line and change nothing, and \<open>a\<close>
  returns a line or throws, then \<^verbatim>\<open>parse\<close> settles as \<open>a\<close> does, whatever the adapters
  after \<open>a\<close> would do; if the adapters before \<open>a\<close> return \<^verbatim>\<open>null\<close> but may change the
  state, \<^verbatim>\<open>parse\<close> settles as \<open>a\<close> does in the state they leave; and if all adapters
  return \<^verbatim>\<open>null\<close> and change nothing, so does \<^verbatim>\<open>parse\<close>. Registering under a type name
  that is present leaves the list of type names as it is; a new type name goes to the end.
\<close>

theorem registry_order:
  assumes "reg = fst (register_all as new_DefaultAdapterRegistry s0)"
  shows "types reg = first_occurrences (map adapter_type as)
     \<and> map Some (Map_values (adapters reg))
         = map (\<lambda>type. last_registered type as) (first_occurrences (map adapter_type as))
     \<and> (map Some trial
           = map (\<lambda>type. last_registered type as) (first_occurrences (map adapter_type as))
         \<and> trial = pre @ a # post
         \<and> (\<forall>b \<in> set pre. \<forall>t. adapter_parse b rawLine t = (Inr None, t))
         \<and> fst (adapter_parse a rawLine s) \<noteq> Inr None
        \<longrightarrow> parse reg rawLine s = adapter_parse a rawLine s)
     \<and> (map Some trial
           = map (\<lambda>type. last_registered type as) (first_occurrences (map adapter_type as))
         \<and> trial = pre @ a # post
         \<and> (\<forall>b \<in> set pre. \<forall>t. fst (adapter_parse b rawLine t) = Inr None)
         \<and> (\<forall>t. fst (adapter_parse a rawLine t) \<noteq> Inr None)
        \<longrightarrow> (\<exists>s1. parse reg rawLine s = adapter_parse a rawLine s1))
     \<and> (map Some trial
           = map (\<lambda>type. last_registered type as) (first_occurrences (map adapter_type as))
         \<and> (\<forall>b \<in> set trial. \<forall>t. adapter_parse b rawLine t = (Inr None, t))
        \<longrightarrow> parse reg rawLine s = (Inr None, s))
     \<and> types (fst (register adapter reg s))
         = (if adapter_type adapter \<in> set (types reg) then types reg
            else types reg @ [adapter_type adapter])"
proof -
  have stored: "map Some (Map_values (adapters reg))
         = map (\<lambda>type. last_registered type as) (first_occurrences (map adapter_type as))"
  proof -
    have "map (get reg) (types reg) = map (\<lambda>type. last_registered type as) (types reg)"
      using reachable_registry(2) [OF assms] by simp
    then show ?thesis
      using reachable_registry(1,3) [OF assms] by simp
  qed
  have tried: "Map_values (adapters reg) = trial"
    if "map Some trial
          = map (\<lambda>type. last_registered type as) (first_occurrences (map adapter_type as))"
  proof -
    have "map Some (Map_values (adapters reg)) = map Some trial"
      using stored that by simp
    then show ?thesis
      by (simp add: inj_map_eq_map)
  qed
  show ?thesis
  proof (intro conjI impI)
    show "types reg = first_occurrences (map adapter_type as)"
      using assms by (rule reachable_registry)
    show "map Some (Map_values (adapters reg))
         = map (\<lambda>type. last_registered type as) (first_occurrences (map adapter_type as))"
      by (rule stored)
    show "parse reg rawLine s = adapter_parse a rawLine s"
      if "map Some trial
           = map (\<lambda>type. last_registered type as) (first_occurrences (map adapter_type as))
         \<and> trial = pre @ a # post
         \<and> (\<forall>b \<in> set pre. \<forall>t. adapter_parse b rawLine t = (Inr None, t))
         \<and> fst (adapter_parse a rawLine s) \<noteq> Inr None"
    proof -
      have "try_adapters pre rawLine s = (Inr None, s)"
        using that by (intro try_adapters_rejecting) blast
      then have "try_adapters (pre @ a # post) rawLine s = try_adapters (a # post) rawLine s"
        by (rule try_adapters_append)
      also have "\<dots> = adapter_parse a rawLine s"
        using that by (intro try_adapters_decides) blast
      finally have run: "try_adapters (pre @ a # post) rawLine s = adapter_parse a rawLine s" .
      have "Map_values (adapters reg) = trial"
        using that by (intro tried) blast
      then have "Map_values (adapters reg) = pre @ a # post"
        using that by blast
      then show ?thesis
        by (simp only: parse_def run)
    qed
    show "\<exists>s1. parse reg rawLine s = adapter_parse a rawLine s1"
      if h: "map Some trial
           = map (\<lambda>type. last_registered type as) (first_occurrences (map adapter_type as))
         \<and> trial = pre @ a # post
         \<and> (\<forall>b \<in> set pre. \<forall>t. fst (adapter_parse b rawLine t) = Inr None)
         \<and> (\<forall>t. fst (adapter_parse a rawLine t) \<noteq> Inr None)"
    proof -
      obtain s1 where "try_adapters pre rawLine s = (Inr None, s1)"
        using h try_adapters_rejecting_state [of pre rawLine s] by blast
      then have "try_adapters (pre @ a # post) rawLine s = try_adapters (a # post) rawLine s1"
        by (rule try_adapters_append)
      also have "\<dots> = adapter_parse a rawLine s1"
        using that by (intro try_adapters_decides) blast
      finally have run: "try_adapters (pre @ a # post) rawLine s = adapter_parse a rawLine s1" .
      have "Map_values (adapters reg) = trial"
        using that by (intro tried) blast
      then have "Map_values (adapters reg) = pre @ a # post"
        using that by blast
      then have "parse reg rawLine s = adapter_parse a rawLine s1"
        by (simp only: parse_def run)
      then show ?thesis by blast
    qed
    show "parse reg rawLine s = (Inr None, s)"
      if "map Some trial
           = map (\<lambda>type. last_registered type as) (first_occurrences (map adapter_type as))
         \<and> (\<forall>b \<in> set trial. \<forall>t. adapter_parse b rawLine t = (Inr None, t))"
    proof -
      have run: "try_adapters trial rawLine s = (Inr None, s)"
        using that by (intro try_adapters_rejecting) blast
      have "Map_values (adapters reg) = trial"
        using that by (intro tried) blast
      then show ?thesis
        by (simp only: parse_def run)
    qed
    show "types (fst (register adapter reg s))
         = (if adapter_type adapter \<in> set (types reg) then types reg
            else types reg @ [adapter_type adapter])"
      by (simp add: types_def register_adapters Map_keys_set)
  qed
qed

theorem registry_order_witness:
  "types (fst (register_all [null_adapter ''git'', BeadsAdapter, throwing_adapter ''git'']
                 new_DefaultAdapterRegistry (initial_state bd_missing)))
     = [''git'', ''beads'']
   \<and> parse (fst (register_all [null_adapter ''git'', BeadsAdapter, throwing_adapter ''git'']
                 new_DefaultAdapterRegistry (initial_state bd_missing)))
        example_line (initial_state bd_missing)
     = (Inl (Thrown (Some ''Parse failed'')), initial_state bd_missing)
   \<and> parse (fst (register_all [throwing_adapter ''git'', BeadsAdapter, null_adapter ''git'']
                 new_DefaultAdapterRegistry (initial_state bd_missing)))
        example_line (initial_state bd_missing)
     = BeadsAdapter_parse example_line (initial_state bd_missing)"
proof (intro conjI)
  define s where "s = initial_state bd_missing"
  define as1 where "as1 = [null_adapter ''git'', BeadsAdapter, throwing_adapter ''git'']"
  define reg1 where "reg1 = fst (register_all as1 new_DefaultAdapterRegistry s)"
  have trial1: "map Some [throwing_adapter ''git'', BeadsAdapter]
      = map (\<lambda>type. last_registered type as1) (first_occurrences (map adapter_type as1))"
    by (simp add: as1_def null_adapter_def BeadsAdapter_def throwing_adapter_def)
  note order1 = registry_order [OF reg1_def, where trial = "[throwing_adapter ''git'', BeadsAdapter]"
      and pre = "[]" and a = "throwing_adapter ''git''" and post = "[BeadsAdapter]"
      and rawLine = example_line and s = s]
  have "types reg1 = [''git'', ''beads'']"
    using order1 by (simp add: as1_def null_adapter_def BeadsAdapter_def throwing_adapter_def)
  then show "types (fst (register_all [null_adapter ''git'', BeadsAdapter, throwing_adapter ''git'']
                 new_DefaultAdapterRegistry (initial_state bd_missing)))
     = [''git'', ''beads'']"
    by (simp add: reg1_def as1_def s_def)
  have throws: "adapter_parse (throwing_adapter ''git'') example_line s
      = (Inl (Thrown (Some ''Parse failed'')), s)"
    by (simp add: throwing_adapter_def)
  have "parse reg1 example_line s = adapter_parse (throwing_adapter ''git'') example_line s"
    using order1 trial1 throws by simp
  then show "parse (fst (register_all [null_adapter ''git'', BeadsAdapter, throwing_adapter ''git'']
                 new_DefaultAdapterRegistry (initial_state bd_missing)))
        example_line (initial_state bd_missing)
     = (Inl (Thrown (Some ''Parse failed'')), initial_state bd_missing)"
    by (simp add: throws) (simp add: reg1_def as1_def s_def)
  define as2 where "as2 = [throwing_adapter ''git'', BeadsAdapter, null_adapter ''git'']"
  define reg2 where "reg2 = fst (register_all as2 new_DefaultAdapterRegistry s)"
  have trial2: "map Some [null_adapter ''git'', BeadsAdapter]
      = map (\<lambda>type. last_registered type as2) (first_occurrences (map adapter_type as2))"
    by (simp add: as2_def null_adapter_def BeadsAdapter_def throwing_adapter_def)
  note order2 = registry_order [OF reg2_def, where trial = "[null_adapter ''git'', BeadsAdapter]"
      and pre = "[null_adapter ''git'']" and a = BeadsAdapter and post = "[]"
      and rawLine = example_line and s = s]
  have rejects: "\<forall>b \<in> set [null_adapter ''git'']. \<forall>t. adapter_parse b example_line t = (Inr None, t)"
    by (simp add: null_adapter_def)
  have matches: "fst (adapter_parse BeadsAdapter example_line s) \<noteq> Inr None"
    using example_line_parsed [of bd_missing] by (auto simp: BeadsAdapter_def s_def)
  have "parse reg2 example_line s = adapter_parse BeadsAdapter example_line s"
    using order2 trial2 rejects matches by simp
  then show "parse (fst (register_all [throwing_adapter ''git'', BeadsAdapter, null_adapter ''git'']
                 new_DefaultAdapterRegistry (initial_state bd_missing)))
        example_line (initial_state bd_missing)
     = BeadsAdapter_parse example_line (initial_state bd_missing)"
    by (simp add: reg2_def as2_def s_def BeadsAdapter_def)
qed

text \<open>
  C3. After any sequence of registrations on a new registry: \<^verbatim>\<open>types()\<close> has no
  duplicates; \<^verbatim>\<open>get\<close> returns the adapter registered last under the type name; the
  adapters \<^verbatim>\<open>parse\<close> tries are those \<^verbatim>\<open>get\<close> returns for the listed type names, in
  that order, which is the order of registration when no type name was registered twice.
  \<^verbatim>\<open>parse\<close> returns the result of the first adapter whose own \<^verbatim>\<open>parse\<close> is not
  \<^verbatim>\<open>null\<close> (the adapters before it having returned \<^verbatim>\<open>null\<close>, which is what
  \<open>try_adapters\<close> returning \<open>None\<close> on them says), and returns \<^verbatim>\<open>null\<close> when no adapter
  matches or when the registry is empty.
\<close>

theorem registry_parse_first_match:
  assumes "reg = fst (register_all as new_DefaultAdapterRegistry s0)"
  shows "distinct (types reg)
     \<and> (\<forall>type. get reg type = last_registered type as)
     \<and> map Some (Map_values (adapters reg)) = map (get reg) (types reg)
     \<and> (distinct (map adapter_type as) \<longrightarrow> Map_values (adapters reg) = as)
     \<and> (Map_values (adapters reg) = pre @ a # post
          \<and> try_adapters pre rawLine s = (Inr None, s1)
          \<and> adapter_parse a rawLine s1 = (Inr (Some line), s2)
        \<longrightarrow> parse reg rawLine s = (Inr (Some line), s2))
     \<and> ((\<forall>a \<in> set (Map_values (adapters reg)). \<forall>t. fst (adapter_parse a rawLine t) = Inr None)
        \<longrightarrow> fst (parse reg rawLine s) = Inr None)
     \<and> parse new_DefaultAdapterRegistry rawLine s = (Inr None, s)"
proof (intro conjI allI impI)
  show "distinct (types reg)"
    using reachable_registry(1) [OF assms] by (simp add: distinct_first_occurrences)
  show "get reg type = last_registered type as" for type
    using assms by (rule reachable_registry)
  show vals: "map Some (Map_values (adapters reg)) = map (get reg) (types reg)"
    using assms by (rule reachable_registry)
  show "Map_values (adapters reg) = as" if "distinct (map adapter_type as)"
  proof -
    have "map Some (Map_values (adapters reg)) = map (\<lambda>type. last_registered type as) (map adapter_type as)"
      using vals reachable_registry(1,2) [OF assms] that
      by (simp add: first_occurrences_distinct)
    then have "map Some (Map_values (adapters reg)) = map Some as"
      using last_registered_distinct [OF that] by simp
    then show ?thesis
      by (simp add: inj_map_eq_map)
  qed
  show "parse reg rawLine s = (Inr (Some line), s2)"
    if "Map_values (adapters reg) = pre @ a # post
          \<and> try_adapters pre rawLine s = (Inr None, s1)
          \<and> adapter_parse a rawLine s1 = (Inr (Some line), s2)"
    using that try_adapters_append [of pre rawLine s s1 "a # post"]
    by (simp add: parse_def)
  show "fst (parse reg rawLine s) = Inr None"
    if "\<forall>a \<in> set (Map_values (adapters reg)). \<forall>t. fst (adapter_parse a rawLine t) = Inr None"
    using that try_adapters_none by (simp add: parse_def)
  show "parse new_DefaultAdapterRegistry rawLine s = (Inr None, s)"
    by (simp add: parse_def new_DefaultAdapterRegistry_def Map_values_def)
qed


theorem registry_parse_first_match_witness:
  "\<exists>line s2.
     adapter_parse BeadsAdapter example_line (initial_state bd_missing) = (Inr (Some line), s2)
   \<and> parse (fst (register_all [null_adapter ''git'', BeadsAdapter]
                   new_DefaultAdapterRegistry (initial_state bd_missing)))
        example_line (initial_state bd_missing) = (Inr (Some line), s2)"
proof -
  define reg where "reg = fst (register_all [null_adapter ''git'', BeadsAdapter]
                   new_DefaultAdapterRegistry (initial_state bd_missing))"
  have "\<exists>line s2. adapter_parse BeadsAdapter example_line (initial_state bd_missing)
      = (Inr (Some line), s2)"
    by (simp add: BeadsAdapter_def BeadsAdapter_parse_def example_line_def is_digit_def
        Let_def createActionableLogLine_def new_context_def new_source_def new_line_def)
  then obtain line s2 where beads:
    "adapter_parse BeadsAdapter example_line (initial_state bd_missing) = (Inr (Some line), s2)"
    by blast
  note first = registry_parse_first_match [OF reg_def, where pre = "[null_adapter ''git'']"
      and a = BeadsAdapter and post = "[]" and rawLine = example_line
      and s = "initial_state bd_missing" and ?s1.0 = "initial_state bd_missing"
      and line = line and ?s2.0 = s2]
  have "Map_values (adapters reg) = [null_adapter ''git'', BeadsAdapter]"
    using first by (simp add: null_adapter_def BeadsAdapter_def)
  moreover have "try_adapters [null_adapter ''git''] example_line (initial_state bd_missing)
      = (Inr None, initial_state bd_missing)"
    by (simp add: null_adapter_def)
  ultimately have "parse reg example_line (initial_state bd_missing) = (Inr (Some line), s2)"
    using first beads by simp
  with beads show ?thesis
    by (auto simp: reg_def)
qed


section \<open>Interpreting a query\<close>

text \<open>
  What \<^verbatim>\<open>interpret\<close> does, by cases. Let \<^verbatim>\<open>line.handleQuery(input)\<close> settle with \<open>r1\<close>
  in state \<open>s1\<close>. What it throws is passed on. A handled result is returned unchanged, and
  so is an unhandled one when the fallback is disabled or has no handler. Otherwise the
  handler is called once, with the formatted context and the input; its response is
  returned as \<^verbatim>\<open>{handled: true, content: response}\<close>; a rejection with a value other than
  \<^verbatim>\<open>null\<close> and \<^verbatim>\<open>undefined\<close> gives
  \<^verbatim>\<open>{handled: false, content: "", error: "Claude fallback failed: <message>"}\<close>; a
  rejection with \<^verbatim>\<open>null\<close> or \<^verbatim>\<open>undefined\<close> makes \<^verbatim>\<open>interpret\<close> itself throw a
  \<^verbatim>\<open>TypeError\<close>. The handler is called if and only if the fallback is enabled, a handler
  is set and \<^verbatim>\<open>handleQuery\<close> returned an unhandled result.
\<close>

lemma interpret_query_cases:
  assumes "handleQuery line input s = (r1, s1)"
  shows "(\<forall>e. r1 = Inl e \<longrightarrow> interpret_query line input s = (Inl e, s1))
     \<and> (\<forall>result. r1 = Inr result \<and> handled result
           \<longrightarrow> interpret_query line input s = (Inr result, s1))
     \<and> (\<forall>result. r1 = Inr result \<and> \<not> handled result
             \<and> \<not> (enabled (fallbackConfig s1) \<and> fallback_handler (fallbackConfig s1) \<noteq> None)
           \<longrightarrow> interpret_query line input s = (Inr result, s1))
     \<and> (\<forall>result h context s2.
           r1 = Inr result \<and> \<not> handled result
             \<and> enabled (fallbackConfig s1) \<and> fallback_handler (fallbackConfig s1) = Some h
             \<and> context = formatContextForClaude line s1
             \<and> s2 = s1\<lparr>events := events s1 @ [FallbackCall context input]\<rparr>
           \<longrightarrow> (\<forall>response. h context input = Inr response \<longrightarrow>
                  interpret_query line input s
                    = (Inr \<lparr>handled = True, content = response, data = None, error = None\<rparr>, s2))
             \<and> (\<forall>msg. h context input = Inl (Thrown msg) \<longrightarrow>
                  interpret_query line input s
                    = (Inr \<lparr>handled = False, content = [], data = None,
                            error = Some (''Claude fallback failed: ''
                                          @ (case msg of
                                               Some m \<Rightarrow> m | None \<Rightarrow> ''undefined''))\<rparr>, s2))
             \<and> (h context input = Inl ThrownNull \<longrightarrow>
                  interpret_query line input s = (Inl (TypeError ''null'' ''message''), s2))
             \<and> (h context input = Inl ThrownUndefined \<longrightarrow>
                  interpret_query line input s = (Inl (TypeError ''undefined'' ''message''), s2)))
     \<and> ((\<exists>context. snd (interpret_query line input s)
                       = s1\<lparr>events := events s1 @ [FallbackCall context input]\<rparr>)
          \<longleftrightarrow> (enabled (fallbackConfig s1) \<and> fallback_handler (fallbackConfig s1) \<noteq> None
               \<and> (\<exists>result. r1 = Inr result \<and> \<not> handled result)))
     \<and> (\<not> (enabled (fallbackConfig s1) \<and> fallback_handler (fallbackConfig s1) \<noteq> None
               \<and> (\<exists>result. r1 = Inr result \<and> \<not> handled result))
          \<longrightarrow> snd (interpret_query line input s) = s1)"
proof -
  have neq: "s1 \<noteq> s1\<lparr>events := events s1 @ [ev]\<rparr>" for ev
  proof
    assume "s1 = s1\<lparr>events := events s1 @ [ev]\<rparr>"
    then have "events s1 = events (s1\<lparr>events := events s1 @ [ev]\<rparr>)" by simp
    then show False by simp
  qed
  show ?thesis
  proof (cases r1)
    case (Inl e)
    with assms neq show ?thesis
      by (simp add: interpret_query_def)
  next
    case (Inr result)
    show ?thesis
    proof (cases "handled result")
      case True
      with Inr assms neq show ?thesis
        by (simp add: interpret_query_def)
    next
      case False
      show ?thesis
      proof (cases "enabled (fallbackConfig s1)")
        case disabled: False
        with False Inr assms neq show ?thesis
          by (simp add: interpret_query_def)
      next
        case True
        show ?thesis
        proof (cases "fallback_handler (fallbackConfig s1)")
          case None
          with True False Inr assms neq show ?thesis
            by (simp add: interpret_query_def)
        next
          case (Some h)
          with True False Inr assms show ?thesis
            by (cases "h (formatContextForClaude line s1) input")
              (auto simp: interpret_query_def Let_def template_def
                split: option.splits thrown.splits)
        qed
      qed
    qed
  qed
qed

text \<open>
  C4. The claim is what the code aims at, and the code does it in every case but one. With
  the fallback enabled, a handler that rejects with no value (\<^verbatim>\<open>() => Promise.reject()\<close>)
  and a line whose \<^verbatim>\<open>handleQuery\<close> returns an unhandled result, \<^verbatim>\<open>interpret\<close> calls the
  handler and then does not return
  \<^verbatim>\<open>{handled: false, content: "", error: "Claude fallback failed: ..."}\<close>: reading
  \<^verbatim>\<open>err.message\<close> in the \<^verbatim>\<open>catch\<close> clause throws a \<^verbatim>\<open>TypeError\<close>, and \<^verbatim>\<open>interpret\<close>
  rejects with it.
\<close>

theorem interpret_throws_on_undefined_rejection:
  "fst (interpret_query unhandled_line ''explain this''
          (configureClaudeFallback \<lparr>enabled = True, fallback_handler = Some rejecting_handler\<rparr>
             (initial_state bd_missing)))
     = Inl (TypeError ''undefined'' ''message'')
   \<and> events (snd (interpret_query unhandled_line ''explain this''
          (configureClaudeFallback \<lparr>enabled = True, fallback_handler = Some rejecting_handler\<rparr>
             (initial_state bd_missing))))
     = [FallbackCall
          (formatContextForClaude unhandled_line
             (configureClaudeFallback \<lparr>enabled = True, fallback_handler = Some rejecting_handler\<rparr>
                (initial_state bd_missing)))
          ''explain this'']"
proof -
  define s1 where "s1 = configureClaudeFallback
      \<lparr>enabled = True, fallback_handler = Some rejecting_handler\<rparr> (initial_state bd_missing)"
  have hq: "handleQuery unhandled_line ''explain this'' s1
      = (Inr \<lparr>handled = False, content = [], data = None, error = Some ''No commands''\<rparr>, s1)"
    by (simp add: unhandled_line_def)
  have cfg: "enabled (fallbackConfig s1)" "fallback_handler (fallbackConfig s1) = Some rejecting_handler"
    by (simp_all add: s1_def configureClaudeFallback_def)
  have "events s1 = []"
    by (simp add: s1_def configureClaudeFallback_def initial_state_def)
  then have "interpret_query unhandled_line ''explain this'' s1
      = (Inl (TypeError ''undefined'' ''message''),
         s1\<lparr>events := [FallbackCall (formatContextForClaude unhandled_line s1) ''explain this'']\<rparr>)"
    using hq cfg by (simp add: interpret_query_def Let_def rejecting_handler_def)
  then show ?thesis
    by (simp add: s1_def)
qed


section \<open>Queries on a beads line\<close>

lemma split_spaces_not_Nil: "split_spaces s \<noteq> []"
  by (induction s rule: split_spaces.induct) (auto split: list.splits)

lemma split_spaces_word_append:
  "\<forall>c \<in> set w. \<not> is_space c \<Longrightarrow>
   split_spaces (w @ r) = (case split_spaces r of [] \<Rightarrow> [w] | p # ps \<Rightarrow> (w @ p) # ps)"
proof (induction w)
  case Nil
  then show ?case using split_spaces_not_Nil [of r] by (simp split: list.splits)
next
  case (Cons c w)
  then show ?case using split_spaces_not_Nil [of r] by (simp split: list.splits)
qed

lemma tokens_spaces: "\<forall>c \<in> set s. is_space c \<Longrightarrow> tokens s = []"
  by (induction s) auto

lemma tokens_dropWhile_space: "tokens (dropWhile is_space s) = tokens s"
  by (induction s) auto

lemma tokens_append_spaces:
  "\<forall>c \<in> set sps. is_space c \<Longrightarrow> tokens (x @ sps) = tokens x"
proof (induction x rule: tokens.induct)
  case 1
  then show ?case by (simp add: tokens_spaces)
next
  case (2 c cs)
  show ?case
  proof (cases "is_space c")
    case True
    with 2 show ?thesis by simp
  next
    case False
    show ?thesis
    proof (cases "\<forall>x \<in> set cs. \<not> is_space x")
      case True
      have "dropWhile (\<lambda>x. \<not> is_space x) sps = sps"
        using 2(3) by (cases sps) auto
      with True have app: "takeWhile (\<lambda>x. \<not> is_space x) (cs @ sps) = cs"
        "dropWhile (\<lambda>x. \<not> is_space x) (cs @ sps) = sps"
        using takeWhile_dropWhile_id [of "\<lambda>x. \<not> is_space x" sps]
        by (simp_all add: takeWhile_append2 dropWhile_append2)
      have alone: "takeWhile (\<lambda>x. \<not> is_space x) cs = cs" "dropWhile (\<lambda>x. \<not> is_space x) cs = []"
        using True by simp_all
      have "tokens ((c # cs) @ sps) = [c # cs]"
        using False 2(3) by (simp add: app tokens_spaces)
      moreover have "tokens (c # cs) = [c # cs]"
        using False by (simp add: alone)
      ultimately show ?thesis by simp
    next
      case some: False
      then obtain x where "x \<in> set cs" "\<not> \<not> is_space x" by blast
      then have "takeWhile (\<lambda>x. \<not> is_space x) (cs @ sps) = takeWhile (\<lambda>x. \<not> is_space x) cs"
        "dropWhile (\<lambda>x. \<not> is_space x) (cs @ sps) = dropWhile (\<lambda>x. \<not> is_space x) cs @ sps"
        by (simp_all add: takeWhile_append1 dropWhile_append1)
      with False 2 show ?thesis by simp
    qed
  qed
qed

lemma trim_append_spaces:
  "\<exists>sps. (\<forall>c \<in> set sps. is_space c) \<and> dropWhile is_space s = trim s @ sps"
proof -
  let ?y = "rev (dropWhile is_space s)"
  have "rev ?y = rev (dropWhile is_space ?y) @ rev (takeWhile is_space ?y)"
    by (metis rev_append takeWhile_dropWhile_id)
  moreover have "\<forall>c \<in> set (rev (takeWhile is_space ?y)). is_space c"
    by (auto dest: set_takeWhileD)
  ultimately show ?thesis
    unfolding trim_def by (intro exI [of _ "rev (takeWhile is_space ?y)"]) simp
qed

lemma tokens_trim: "tokens (trim s) = tokens s"
proof -
  obtain sps where "\<forall>c \<in> set sps. is_space c" "dropWhile is_space s = trim s @ sps"
    using trim_append_spaces by blast
  then have "tokens (dropWhile is_space s) = tokens (trim s)"
    by (simp add: tokens_append_spaces)
  then show ?thesis by (simp add: tokens_dropWhile_space)
qed

lemma trim_ends:
  assumes "trim s \<noteq> []"
  shows "\<not> is_space (hd (trim s))" "\<not> is_space (last (trim s))"
proof -
  obtain sps where sps: "dropWhile is_space s = trim s @ sps"
    using trim_append_spaces by blast
  then have "hd (dropWhile is_space s) = hd (trim s)"
    using assms by simp
  moreover have "dropWhile is_space s \<noteq> []"
    using sps assms by simp
  ultimately show "\<not> is_space (hd (trim s))"
    using hd_dropWhile [of is_space s] by simp
  have "dropWhile is_space (rev (dropWhile is_space s)) \<noteq> []"
    using assms by (simp add: trim_def)
  then have "\<not> is_space (hd (dropWhile is_space (rev (dropWhile is_space s))))"
    by (rule hd_dropWhile)
  then show "\<not> is_space (last (trim s))"
    using assms by (simp add: trim_def last_rev)
qed


lemma split_spaces_tokens:
  "s \<noteq> [] \<Longrightarrow> \<not> is_space (hd s) \<Longrightarrow> \<not> is_space (last s) \<Longrightarrow> split_spaces s = tokens s"
proof (induction "length s" arbitrary: s rule: less_induct)
  case less
  obtain c cs where s: "s = c # cs"
    using less.prems(1) by (cases s) auto
  then have c: "\<not> is_space c"
    using less.prems(2) by simp
  define w where "w = c # takeWhile (\<lambda>x. \<not> is_space x) cs"
  define r where "r = dropWhile (\<lambda>x. \<not> is_space x) cs"
  have w: "\<forall>x \<in> set w. \<not> is_space x"
    using c by (auto simp: w_def dest: set_takeWhileD)
  have decomp: "s = w @ r"
    using s by (simp add: w_def r_def)
  have tok: "tokens s = w # tokens r"
    using s c by (simp add: w_def r_def)
  show ?case
  proof (cases r)
    case Nil
    then have "split_spaces s = [w]"
      using split_spaces_word_append [OF w, of "[]"] decomp by simp
    with tok Nil show ?thesis by simp
  next
    case (Cons sp r')
    have "r \<noteq> []"
      using Cons by simp
    then have "\<not> \<not> is_space (hd r)"
      unfolding r_def by (rule hd_dropWhile)
    then have sp: "is_space sp"
      using Cons by simp
    define t where "t = dropWhile is_space r'"
    have "split_spaces r = [] # split_spaces t"
      using Cons sp by (simp add: t_def)
    then have split: "split_spaces s = w # split_spaces t"
      using split_spaces_word_append [OF w, of r] decomp by simp
    have last_r: "last r = last s"
      using decomp Cons by simp
    have t_ne: "t \<noteq> []"
    proof
      assume "t = []"
      then have "\<forall>x \<in> set r'. is_space x"
        by (simp add: t_def dropWhile_eq_Nil_conv)
      then have "\<forall>x \<in> set r. is_space x"
        using Cons sp by simp
      then have "is_space (last r)"
        using \<open>r \<noteq> []\<close> last_in_set by blast
      with last_r less.prems(3) show False by simp
    qed
    have "r' = takeWhile is_space r' @ t"
      by (simp add: t_def)
    then have "last r' = last t"
      using t_ne by (metis last_appendR)
    moreover have "r' \<noteq> []"
      using t_ne by (auto simp: t_def)
    ultimately have last_t: "last t = last s"
      using last_r Cons by simp
    have "length t \<le> length r'"
      unfolding t_def by (rule length_dropWhile_le)
    moreover have "length r' < length r"
      using Cons by simp
    moreover have "length r \<le> length cs"
      unfolding r_def by (rule length_dropWhile_le)
    ultimately have shorter: "length t < length s"
      using s by simp
    have "\<not> is_space (hd t)"
      using t_ne unfolding t_def by (rule hd_dropWhile)
    then have "split_spaces t = tokens t"
      using less.hyps [OF shorter t_ne] last_t less.prems(3) by simp
    moreover have "tokens r = tokens t"
      using Cons sp by (simp add: t_def tokens_dropWhile_space)
    ultimately show ?thesis
      using split tok by simp
  qed
qed

lemma toLowerCase_char_space: "is_space (toLowerCase_char c) = is_space c"
  by (cases c) (auto simp: toLowerCase_char_def is_space_def Let_def)

lemma tokens_toLowerCase: "tokens (toLowerCase s) = map toLowerCase (tokens s)"
proof (induction s rule: tokens.induct)
  case 1
  show ?case by (simp add: toLowerCase_def)
next
  case (2 c cs)
  have eq: "(\<lambda>x. \<not> is_space x) \<circ> toLowerCase_char = (\<lambda>x. \<not> is_space x)"
    by (simp add: fun_eq_iff toLowerCase_char_space)
  show ?case
  proof (cases "is_space c")
    case True
    with 2 show ?thesis
      by (simp add: toLowerCase_def toLowerCase_char_space)
  next
    case False
    with 2 show ?thesis
      by (simp add: toLowerCase_def toLowerCase_char_space takeWhile_map dropWhile_map eq)
  qed
qed

lemma tokens_not_Nil: "s \<noteq> [] \<Longrightarrow> \<not> is_space (hd s) \<Longrightarrow> tokens s \<noteq> []"
  by (cases s) auto

lemma split_spaces_query:
  "split_spaces (toLowerCase (trim input))
     = (if tokens input = [] then [[]] else map toLowerCase (tokens input))"
proof (cases "trim input = []")
  case True
  then have "tokens input = []"
    using tokens_trim [of input] by simp
  with True show ?thesis
    by (simp add: toLowerCase_def)
next
  case False
  let ?t = "toLowerCase (trim input)"
  have ne: "?t \<noteq> []"
    using False by (simp add: toLowerCase_def)
  have "hd ?t = toLowerCase_char (hd (trim input))" "last ?t = toLowerCase_char (last (trim input))"
    using False by (simp_all add: toLowerCase_def hd_map last_map)
  then have ends: "\<not> is_space (hd ?t)" "\<not> is_space (last ?t)"
    using trim_ends [OF False] by (simp_all add: toLowerCase_char_space)
  have "split_spaces ?t = tokens ?t"
    using ne ends by (rule split_spaces_tokens)
  also have "\<dots> = map toLowerCase (tokens input)"
    by (simp add: tokens_toLowerCase tokens_trim)
  finally have "split_spaces ?t = map toLowerCase (tokens input)" .
  moreover have "tokens input \<noteq> []"
    using tokens_not_Nil [OF False trim_ends(1) [OF False]] by (simp add: tokens_trim)
  ultimately show ?thesis by simp
qed


lemma BeadsAdapter_parse_line:
  assumes "BeadsAdapter_parse rawLine s0 = (Inr (Some line), s1)"
  shows "\<exists>context c.
      availableCommands line = createBeadsCommands context
    \<and> handleQuery line = beads_handleQuery (createBeadsCommands context)
    \<and> source_context (sources s1 (line_source (lines s1 (self line)))) = context
    \<and> contexts s1 context = entries c
    \<and> eventCode c \<noteq> [] \<and> issueId c \<noteq> []"
  using assms
  by (auto simp: BeadsAdapter_parse_def Let_def createActionableLogLine_def
      new_context_def new_source_def new_line_def split: if_splits)

lemma find_command_first:
  "i < length cmds \<Longrightarrow>
   name (cmds ! i) = cmdName \<or> cmdName \<in> set (aliases (cmds ! i)) \<Longrightarrow>
   \<forall>j < i. name (cmds ! j) \<noteq> cmdName \<and> cmdName \<notin> set (aliases (cmds ! j)) \<Longrightarrow>
   find_command cmds cmdName = Some (cmds ! i)"
proof (induction cmds arbitrary: i)
  case Nil
  then show ?case by simp
next
  case (Cons cmd cmds)
  show ?case
  proof (cases i)
    case 0
    with Cons.prems show ?thesis by auto
  next
    case (Suc k)
    with Cons.prems have "name cmd \<noteq> cmdName \<and> cmdName \<notin> set (aliases cmd)" by auto
    moreover have "find_command cmds cmdName = Some (cmds ! k)"
      using Cons.prems Suc by (intro Cons.IH) auto
    ultimately show ?thesis using Suc by simp
  qed
qed

lemma find_command_none:
  "\<forall>cmd \<in> set cmds. name cmd \<noteq> cmdName \<and> cmdName \<notin> set (aliases cmd) \<Longrightarrow>
   find_command cmds cmdName = None"
  by (induction cmds) auto

lemma beads_handleQuery_tokens:
  assumes "toks = map toLowerCase (tokens input)"
    and "cmdName = (case toks of [] \<Rightarrow> [] | t # ts \<Rightarrow> t)"
    and "paramString = join '' '' (tl toks)"
  shows "beads_handleQuery commands input s =
     (case find_command commands cmdName of
        Some cmd \<Rightarrow> handler cmd paramString s
      | None \<Rightarrow> (Inr (unknown_command commands cmdName), s))"
proof (cases "tokens input")
  case Nil
  with assms show ?thesis
    by (simp add: beads_handleQuery_def split_spaces_query split: option.splits)
next
  case (Cons t ts)
  with assms show ?thesis
    by (simp add: beads_handleQuery_def split_spaces_query split: option.splits)
qed

lemma beads_command_table:
  "map (\<lambda>cmd. (name cmd, aliases cmd)) (createBeadsCommands context)
     = [(''show'', [''s'']), (''related'', [''r'', ''rel'']), (''deps'', [''d'', ''dependencies'']),
        (''category'', [''c'', ''cat'']), (''session'', [''sess'']), (''before'', [''b'']),
        (''after'', [''a''])]"
  by (simp add: createBeadsCommands_def)

lemma beads_command_names:
  "join '', '' (map name (createBeadsCommands context))
     = ''show, related, deps, category, session, before, after''"
  by (simp add: createBeadsCommands_def)

text \<open>
  C5. \<^verbatim>\<open>handleQuery\<close> of a parsed beads line works on the white-space-delimited tokens of
  the input in lower case: the first is the command name (the empty string when there is
  none), the others joined by single spaces are the parameter string. The commands are, in
  this order and with these aliases, show, related, deps, category, session, before and
  after. The first command in the list whose name or one of whose aliases equals the
  command name is run on the parameter string; when none does, the result is
  \<^verbatim>\<open>{handled: false, content: "", error: "Unknown command: <token>. Try: show, related,
  deps, category, session, before, after"}\<close> and nothing else happens.
\<close>

theorem handleQuery_dispatch:
  assumes parsed: "BeadsAdapter_parse rawLine s0 = (Inr (Some line), s1)"
    and toks: "toks = map toLowerCase (tokens input)"
    and cmdName: "cmdName = (case toks of [] \<Rightarrow> [] | t # ts \<Rightarrow> t)"
    and params: "paramString = join '' '' (tl toks)"
  shows "map (\<lambda>cmd. (name cmd, aliases cmd)) (availableCommands line)
       = [(''show'', [''s'']), (''related'', [''r'', ''rel'']), (''deps'', [''d'', ''dependencies'']),
          (''category'', [''c'', ''cat'']), (''session'', [''sess'']), (''before'', [''b'']),
          (''after'', [''a''])]
     \<and> (\<forall>i < length (availableCommands line).
          (name (availableCommands line ! i) = cmdName
             \<or> cmdName \<in> set (aliases (availableCommands line ! i)))
          \<and> (\<forall>j < i. name (availableCommands line ! j) \<noteq> cmdName
                      \<and> cmdName \<notin> set (aliases (availableCommands line ! j)))
          \<longrightarrow> handleQuery line input s = handler (availableCommands line ! i) paramString s)
     \<and> ((\<forall>cmd \<in> set (availableCommands line).
            name cmd \<noteq> cmdName \<and> cmdName \<notin> set (aliases cmd))
          \<longrightarrow> handleQuery line input s
              = (Inr \<lparr>handled = False, content = [], data = None,
                      error = Some (''Unknown command: '' @ cmdName
                        @ ''. Try: show, related, deps, category, session, before, after'')\<rparr>, s))"
proof -
  obtain ctx where cmds: "availableCommands line = createBeadsCommands ctx"
    and hq: "handleQuery line = beads_handleQuery (createBeadsCommands ctx)"
    using BeadsAdapter_parse_line [OF parsed] by blast
  have run: "handleQuery line input s =
     (case find_command (availableCommands line) cmdName of
        Some cmd \<Rightarrow> handler cmd paramString s
      | None \<Rightarrow> (Inr (unknown_command (availableCommands line) cmdName), s))"
    using beads_handleQuery_tokens [OF toks cmdName params] by (simp add: hq cmds split: option.splits)
  show ?thesis
  proof (intro conjI allI impI)
    show "map (\<lambda>cmd. (name cmd, aliases cmd)) (availableCommands line)
       = [(''show'', [''s'']), (''related'', [''r'', ''rel'']), (''deps'', [''d'', ''dependencies'']),
          (''category'', [''c'', ''cat'']), (''session'', [''sess'']), (''before'', [''b'']),
          (''after'', [''a''])]"
      unfolding cmds by (rule beads_command_table)
  next
    fix i
    assume "i < length (availableCommands line)"
      and "(name (availableCommands line ! i) = cmdName
             \<or> cmdName \<in> set (aliases (availableCommands line ! i)))
          \<and> (\<forall>j < i. name (availableCommands line ! j) \<noteq> cmdName
                      \<and> cmdName \<notin> set (aliases (availableCommands line ! j)))"
    then have "find_command (availableCommands line) cmdName = Some (availableCommands line ! i)"
      by (intro find_command_first) auto
    then show "handleQuery line input s = handler (availableCommands line ! i) paramString s"
      by (simp add: run)
  next
    assume "\<forall>cmd \<in> set (availableCommands line).
            name cmd \<noteq> cmdName \<and> cmdName \<notin> set (aliases cmd)"
    then have "find_command (availableCommands line) cmdName = None"
      by (rule find_command_none)
    then show "handleQuery line input s
              = (Inr \<lparr>handled = False, content = [], data = None,
                      error = Some (''Unknown command: '' @ cmdName
                        @ ''. Try: show, related, deps, category, session, before, after'')\<rparr>, s)"
      by (simp add: run unknown_command_def cmds beads_command_names)
  qed
qed


lemma beads_commands_length: "length (createBeadsCommands ctx) = 7"
  by (simp add: createBeadsCommands_def)

lemma beads_commands_show:
  "name (createBeadsCommands ctx ! 0) = ''show''" "aliases (createBeadsCommands ctx ! 0) = [''s'']"
  by (simp_all add: createBeadsCommands_def)

lemma beads_commands_no_match:
  "cmdName \<notin> set [''show'', ''s'', ''related'', ''r'', ''rel'', ''deps'', ''d'', ''dependencies'',
                   ''category'', ''c'', ''cat'', ''session'', ''sess'', ''before'', ''b'',
                   ''after'', ''a'']
   \<Longrightarrow> \<forall>cmd \<in> set (createBeadsCommands ctx). name cmd \<noteq> cmdName \<and> cmdName \<notin> set (aliases cmd)"
proof -
  assume "cmdName \<notin> set [''show'', ''s'', ''related'', ''r'', ''rel'', ''deps'', ''d'', ''dependencies'',
                   ''category'', ''c'', ''cat'', ''session'', ''sess'', ''before'', ''b'',
                   ''after'', ''a'']"
  then have "\<forall>p \<in> set (map (\<lambda>cmd. (name cmd, aliases cmd)) (createBeadsCommands ctx)).
      fst p \<noteq> cmdName \<and> cmdName \<notin> set (snd p)"
    unfolding beads_command_table by auto
  then show ?thesis
    by simp
qed

theorem handleQuery_dispatch_witness:
  "\<exists>line s1. BeadsAdapter_parse example_line (initial_state bd_missing) = (Inr (Some line), s1)
     \<and> handleQuery line ''  SHOW   x  y'' s1 = handler (availableCommands line ! 0) ''x y'' s1
     \<and> handleQuery line ''unknowncmd'' s1
         = (Inr \<lparr>handled = False, content = [], data = None,
                 error = Some ''Unknown command: unknowncmd. Try: show, related, deps, category, session, before, after''\<rparr>,
            s1)"
proof -
  obtain line s1 where parsed:
    "BeadsAdapter_parse example_line (initial_state bd_missing) = (Inr (Some line), s1)"
    using example_line_parsed by blast
  obtain ctx where cmds: "availableCommands line = createBeadsCommands ctx"
    using BeadsAdapter_parse_line [OF parsed] by blast
  have show_first: "0 < length (availableCommands line)"
    "name (availableCommands line ! 0) = ''show''"
    by (simp_all add: cmds beads_commands_length beads_commands_show)
  have t1: "map toLowerCase (tokens ''  SHOW   x  y'') = [''show'', ''x'', ''y'']"
    by (simp add: is_space_def toLowerCase_def toLowerCase_char_def)
  have "handleQuery line ''  SHOW   x  y'' s1 = handler (availableCommands line ! 0) ''x y'' s1"
    using handleQuery_dispatch [OF parsed t1 [symmetric] refl refl, of s1,
        THEN conjunct2, THEN conjunct1, rule_format, of 0] show_first
    by simp
  moreover have none: "\<forall>cmd \<in> set (availableCommands line).
      name cmd \<noteq> ''unknowncmd'' \<and> ''unknowncmd'' \<notin> set (aliases cmd)"
    unfolding cmds by (rule beads_commands_no_match) simp
  have t2: "map toLowerCase (tokens ''unknowncmd'') = [''unknowncmd'']"
    by (simp add: is_space_def toLowerCase_def toLowerCase_char_def)
  have "handleQuery line ''unknowncmd'' s1
         = (Inr \<lparr>handled = False, content = [], data = None,
                 error = Some ''Unknown command: unknowncmd. Try: show, related, deps, category, session, before, after''\<rparr>,
            s1)"
    using handleQuery_dispatch [OF parsed t2 [symmetric] refl refl, of s1,
        THEN conjunct2, THEN conjunct2] none
    by simp
  ultimately show ?thesis
    using parsed by blast
qed


section \<open>The command handlers\<close>

lemma BeadsAdapter_parse_source:
  assumes "BeadsAdapter_parse rawLine s0 = (Inr (Some line), s1)"
  shows "\<exists>c. availableCommands line
          = createBeadsCommands (source_context (sources s1 (line_source (lines s1 (self line)))))
    \<and> contexts s1 (source_context (sources s1 (line_source (lines s1 (self line))))) = entries c
    \<and> source_id (sources s1 (line_source (lines s1 (self line)))) = issueId c"
  using assms
  by (auto simp: BeadsAdapter_parse_def Let_def createActionableLogLine_def
      new_context_def new_source_def new_line_def split: if_splits)

lemma runBdCommand_state:
  "snd (runBdCommand args s) = s\<lparr>events := events s @ [Exec (''bd '' @ args)]\<rparr>"
  by (simp add: runBdCommand_def Let_def split: sum.splits)

lemma beads_handlers_shape:
  assumes "property (contexts s ctx) ''eventCode'' \<noteq> None"
  shows "\<forall>cmd \<in> set (createBeadsCommands ctx). \<forall>ps.
      (\<exists>text. handler cmd ps s
         = (Inr \<lparr>handled = True, content = text, data = None, error = None\<rparr>, s))
    \<or> (\<exists>args. handler cmd ps s
         = (Inr \<lparr>handled = True, content = fst (runBdCommand args s), data = None, error = None\<rparr>,
            snd (runBdCommand args s)))"
    (is "\<forall>cmd \<in> _. ?shape cmd")
proof -
  have "?shape (createBeadsCommands ctx ! 0)"
    by (auto simp: createBeadsCommands_def Let_def case_prod_beta)
  moreover have "?shape (createBeadsCommands ctx ! 1)"
    using assms by (auto simp: createBeadsCommands_def Let_def case_prod_beta)
  moreover have "?shape (createBeadsCommands ctx ! 2)"
    by (auto simp: createBeadsCommands_def Let_def case_prod_beta)
  moreover have "?shape (createBeadsCommands ctx ! 3)"
    using assms by (auto simp: createBeadsCommands_def Let_def case_prod_beta)
  moreover have "?shape (createBeadsCommands ctx ! 4)"
    by (auto simp: createBeadsCommands_def Let_def case_prod_beta)
  moreover have "?shape (createBeadsCommands ctx ! 5)"
    by (auto simp: createBeadsCommands_def Let_def case_prod_beta)
  moreover have "?shape (createBeadsCommands ctx ! 6)"
    by (auto simp: createBeadsCommands_def Let_def case_prod_beta)
  ultimately have "\<forall>i < 7. ?shape (createBeadsCommands ctx ! i)"
    by (simp add: less_Suc_eq eval_nat_numeral)
  then show ?thesis
    by (metis beads_commands_length in_set_conv_nth)
qed

lemma runBdCommand_bd_content:
  "runBdCommand args s
     = (bd_content (execAsync s (''bd '' @ args)), s\<lparr>events := events s @ [Exec (''bd '' @ args)]\<rparr>)"
  by (simp add: runBdCommand_def bd_content_def Let_def truthy_def template_def
      split: sum.splits option.splits list.splits)

lemma split_first_piece: "\<exists>rest. split d s = takeWhile (\<lambda>x. x \<noteq> d) s # rest"
proof (induction s)
  case Nil
  show ?case by simp
next
  case (Cons c cs)
  then obtain rest where "split d cs = takeWhile (\<lambda>x. x \<noteq> d) cs # rest"
    by blast
  then show ?case by simp
qed

lemma parseEventCode_category:
  "fst (parseEventCode code) = takeWhile (\<lambda>x. x \<noteq> CHR ''.'') code"
proof -
  obtain rest where "split (CHR ''.'') code = takeWhile (\<lambda>x. x \<noteq> CHR ''.'') code # rest"
    using split_first_piece by blast
  then show ?thesis
    by (simp add: parseEventCode_def)
qed

lemma BeadsAdapter_parse_fields:
  assumes raw: "rawLine = join ''|''
                  (TIMESTAMP # EVENT_CODE # ENTITY_ID # AGENT_ID # SESSION_ID # DETAILS)"
    and free: "\<forall>f \<in> set (TIMESTAMP # EVENT_CODE # ENTITY_ID # AGENT_ID # SESSION_ID # DETAILS).
                 CHR ''|'' \<notin> set f"
    and parsed: "BeadsAdapter_parse rawLine s0 = (Inr (Some line), s1)"
  shows "availableCommands line
           = createBeadsCommands (source_context (sources s1 (line_source (lines s1 (self line)))))
     \<and> contexts s1 (source_context (sources s1 (line_source (lines s1 (self line)))))
           = entries \<lparr>timestamp = TIMESTAMP, eventCode = EVENT_CODE,
                      issueId = (if ENTITY_ID = [] then ''none'' else ENTITY_ID),
                      agentId = AGENT_ID, sessionId = SESSION_ID,
                      details = join ''|'' DETAILS\<rparr>"
proof -
  have parts: "split (CHR ''|'') rawLine
      = TIMESTAMP # EVENT_CODE # ENTITY_ID # AGENT_ID # SESSION_ID # DETAILS"
    unfolding raw using free by (intro split_join) simp_all
  show ?thesis
    using parsed
    by (auto simp: BeadsAdapter_parse_def parts Let_def createActionableLogLine_def
        new_context_def new_source_def new_line_def split: if_splits)
qed

lemma beads_handlers_run:
  assumes obj: "contexts s ctx = entries \<lparr>timestamp = ts, eventCode = code, issueId = entity,
                                          agentId = agent, sessionId = session, details = dt\<rparr>"
    and entity: "entity \<noteq> []"
    and category: "category = takeWhile (\<lambda>x. x \<noteq> CHR ''.'') code"
  shows "handler (createBeadsCommands ctx ! 0) ps s
       = (if entity = ''none''
          then (Inr \<lparr>handled = True, content = ''No issue associated with this event'',
                     data = None, error = None\<rparr>, s)
          else ran_bd (''show '' @ entity) s)"
    and "handler (createBeadsCommands ctx ! 1) ps s
       = (if entity \<noteq> ''none'' then ran_bd (''log --issue '' @ entity) s
          else ran_bd (''log --category '' @ category @ '' --last 20'') s)"
    and "handler (createBeadsCommands ctx ! 2) ps s
       = (if entity = ''none''
          then (Inr \<lparr>handled = True, content = ''No issue associated with this event'',
                     data = None, error = None\<rparr>, s)
          else ran_bd (''show '' @ entity) s)"
    and "handler (createBeadsCommands ctx ! 3) ps s
       = ran_bd (''log --category '' @ (if ps \<noteq> [] then ps else category) @ '' --last 30'') s"
    and "handler (createBeadsCommands ctx ! 4) ps s
       = (if session = []
          then (Inr \<lparr>handled = True, content = ''No session ID available'',
                     data = None, error = None\<rparr>, s)
          else ran_bd (''log --session '' @ session) s)"
    and "handler (createBeadsCommands ctx ! 5) ps s
       = ran_bd (''log --until '' @ ts @ '' --last 20'') s"
    and "handler (createBeadsCommands ctx ! 6) ps s
       = ran_bd (''log --since '' @ ts @ '' --last 20'') s"
  using entity
  by (simp_all add: createBeadsCommands_def obj entries_def property_def truthy_def template_def
      runBdCommand_bd_content ran_bd_def parseEventCode_category category Let_def)

lemma entries_eventCode: "property (entries c) ''eventCode'' = Some (eventCode c)"
  by (simp add: property_def entries_def)

text \<open>
  C8. Take a line parsed from the fields \<open>TIMESTAMP\<close>, \<open>EVENT_CODE\<close>, \<open>ENTITY_ID\<close>,
  \<open>AGENT_ID\<close>, \<open>SESSION_ID\<close> and details, with \<open>entity\<close> its entity id (\<^verbatim>\<open>"none"\<close> when
  the field is empty) and \<open>category\<close> the part of the event code before the first dot, in
  any state and environment where its context object is as \<^verbatim>\<open>parse\<close> created it. Its
  commands are show, related, deps, category, session, before and after. Every handler
  returns (it does not throw) a result with \<^verbatim>\<open>handled: true\<close> and no \<^verbatim>\<open>error\<close>. Each
  handler runs exactly one \<^verbatim>\<open>bd\<close> command, the one stated, and returns as content what
  that command settles to: its trimmed output, or, when it fails, the failure's text
  (\<open>ran_bd\<close>). The exceptions are show and deps when the entity id is \<^verbatim>\<open>"none"\<close>, and
  session when the session id is empty: they return an informational message and leave the
  state, and so the trace of commands run, as it was.
\<close>

theorem handlers_catch_process_failure:
  assumes raw: "rawLine = join ''|''
                  (TIMESTAMP # EVENT_CODE # ENTITY_ID # AGENT_ID # SESSION_ID # DETAILS)"
    and free: "\<forall>f \<in> set (TIMESTAMP # EVENT_CODE # ENTITY_ID # AGENT_ID # SESSION_ID # DETAILS).
                 CHR ''|'' \<notin> set f"
    and parsed: "BeadsAdapter_parse rawLine s0 = (Inr (Some line), s1)"
    and kept: "contexts s (source_context (sources s1 (line_source (lines s1 (self line)))))
             = contexts s1 (source_context (sources s1 (line_source (lines s1 (self line)))))"
    and entity: "entity = (if ENTITY_ID = [] then ''none'' else ENTITY_ID)"
    and category: "category = takeWhile (\<lambda>x. x \<noteq> CHR ''.'') EVENT_CODE"
  shows "map name (availableCommands line)
           = [''show'', ''related'', ''deps'', ''category'', ''session'', ''before'', ''after'']
     \<and> (\<forall>cmd \<in> set (availableCommands line). \<forall>ps. \<exists>result s'.
            handler cmd ps s = (Inr result, s') \<and> handled result \<and> error result = None)
     \<and> source_id (sources s1 (line_source (lines s1 (self line)))) = entity
     \<and> handler (availableCommands line ! 0) ps s
         = (if entity = ''none''
            then (Inr \<lparr>handled = True, content = ''No issue associated with this event'',
                       data = None, error = None\<rparr>, s)
            else ran_bd (''show '' @ entity) s)
     \<and> handler (availableCommands line ! 1) ps s
         = (if entity \<noteq> ''none'' then ran_bd (''log --issue '' @ entity) s
            else ran_bd (''log --category '' @ category @ '' --last 20'') s)
     \<and> handler (availableCommands line ! 2) ps s
         = (if entity = ''none''
            then (Inr \<lparr>handled = True, content = ''No issue associated with this event'',
                       data = None, error = None\<rparr>, s)
            else ran_bd (''show '' @ entity) s)
     \<and> handler (availableCommands line ! 3) ps s
         = ran_bd (''log --category '' @ (if ps \<noteq> [] then ps else category) @ '' --last 30'') s
     \<and> handler (availableCommands line ! 4) ps s
         = (if SESSION_ID = []
            then (Inr \<lparr>handled = True, content = ''No session ID available'',
                       data = None, error = None\<rparr>, s)
            else ran_bd (''log --session '' @ SESSION_ID) s)
     \<and> handler (availableCommands line ! 5) ps s
         = ran_bd (''log --until '' @ TIMESTAMP @ '' --last 20'') s
     \<and> handler (availableCommands line ! 6) ps s
         = ran_bd (''log --since '' @ TIMESTAMP @ '' --last 20'') s"
proof -
  define ctx where "ctx = source_context (sources s1 (line_source (lines s1 (self line))))"
  have cmds: "availableCommands line = createBeadsCommands ctx"
    and obj1: "contexts s1 ctx = entries \<lparr>timestamp = TIMESTAMP, eventCode = EVENT_CODE,
                      issueId = entity, agentId = AGENT_ID, sessionId = SESSION_ID,
                      details = join ''|'' DETAILS\<rparr>"
    using BeadsAdapter_parse_fields [OF raw free parsed] by (simp_all add: ctx_def entity)
  have obj: "contexts s ctx = entries \<lparr>timestamp = TIMESTAMP, eventCode = EVENT_CODE,
                      issueId = entity, agentId = AGENT_ID, sessionId = SESSION_ID,
                      details = join ''|'' DETAILS\<rparr>"
    using kept obj1 by (simp add: ctx_def)
  have ne: "entity \<noteq> []"
    by (simp add: entity)
  note run = beads_handlers_run [OF obj ne category]
  have names: "map name (availableCommands line)
           = [''show'', ''related'', ''deps'', ''category'', ''session'', ''before'', ''after'']"
    by (simp add: cmds createBeadsCommands_def)
  have code: "property (contexts s ctx) ''eventCode'' \<noteq> None"
    by (simp add: obj entries_eventCode)
  have returns: "\<exists>result s'. handler cmd ps s = (Inr result, s') \<and> handled result \<and> error result = None"
    if "cmd \<in> set (availableCommands line)" for cmd ps
  proof -
    have "cmd \<in> set (createBeadsCommands ctx)"
      using that cmds by simp
    with beads_handlers_shape [OF code]
    consider msg where "handler cmd ps s
         = (Inr \<lparr>handled = True, content = msg, data = None, error = None\<rparr>, s)"
      | args where "handler cmd ps s
         = (Inr \<lparr>handled = True, content = fst (runBdCommand args s), data = None, error = None\<rparr>,
            snd (runBdCommand args s))"
      by blast
    then show ?thesis
      by cases simp_all
  qed
  have id: "source_id (sources s1 (line_source (lines s1 (self line)))) = entity"
  proof -
    obtain c where "contexts s1 ctx = entries c"
      and "source_id (sources s1 (line_source (lines s1 (self line)))) = issueId c"
      using BeadsAdapter_parse_source [OF parsed] unfolding ctx_def by blast
    with obj1 show ?thesis
      by (simp add: entries_def)
  qed
  show ?thesis
    unfolding cmds [symmetric]
    using names returns id run [folded cmds] by blast
qed

lemma BeadsAdapter_parse_environment:
  "BeadsAdapter_parse rawLine s0 = (r, s1) \<Longrightarrow>
   execAsync s1 = execAsync s0 \<and> events s1 = events s0 \<and> fallbackConfig s1 = fallbackConfig s0"
  by (auto simp: BeadsAdapter_parse_def Let_def createActionableLogLine_def
      new_context_def new_source_def new_line_def split: if_splits)

lemma example_line_no_issue_parsed:
  "\<exists>line s1. BeadsAdapter_parse example_line_no_issue (initial_state env) = (Inr (Some line), s1)"
  by (simp add: BeadsAdapter_parse_def example_line_no_issue_def is_digit_def initial_state_def
      Let_def createActionableLogLine_def new_context_def new_source_def new_line_def)

theorem handlers_catch_process_failure_witness:
  "\<exists>line s1.
     BeadsAdapter_parse example_line_no_issue (initial_state bd_missing) = (Inr (Some line), s1)
   \<and> handler (availableCommands line ! 0) [] s1
       = (Inr \<lparr>handled = True, content = ''No issue associated with this event'',
               data = None, error = None\<rparr>, s1)
   \<and> handler (availableCommands line ! 1) [] s1
       = (Inr \<lparr>handled = True, content = ''/bin/sh: 1: bd: not found'',
               data = None, error = None\<rparr>,
          s1\<lparr>events := events s1 @ [Exec ''bd log --category sk --last 20'']\<rparr>)
   \<and> handler (availableCommands line ! 4) [] (s1\<lparr>execAsync := bd_echo\<rparr>)
       = (Inr \<lparr>handled = True, content = ''bd log --session sess-abc123'',
               data = None, error = None\<rparr>,
          s1\<lparr>execAsync := bd_echo,
             events := events s1 @ [Exec ''bd log --session sess-abc123'']\<rparr>)"
proof -
  obtain line s1 where parsed:
    "BeadsAdapter_parse example_line_no_issue (initial_state bd_missing) = (Inr (Some line), s1)"
    using example_line_no_issue_parsed by blast
  have raw: "example_line_no_issue = join ''|''
      (''2025-01-15T15:04:02.123Z'' # ''sk.bootup.activated'' # ''none'' # ''steve''
         # ''sess-abc123'' # [''skill=beads-bootup''])"
    by (simp add: example_line_no_issue_def)
  have free: "\<forall>f \<in> set (''2025-01-15T15:04:02.123Z'' # ''sk.bootup.activated'' # ''none''
         # ''steve'' # ''sess-abc123'' # [''skill=beads-bootup'']). CHR ''|'' \<notin> set f"
    by simp
  have env: "execAsync s1 = bd_missing"
    using BeadsAdapter_parse_environment [OF parsed] by (simp add: initial_state_def)
  note caught = handlers_catch_process_failure [OF raw free parsed _ refl refl]
  have "handler (availableCommands line ! 0) [] s1
       = (Inr \<lparr>handled = True, content = ''No issue associated with this event'',
               data = None, error = None\<rparr>, s1)"
    using caught [of s1 "[]"] by simp
  moreover have "handler (availableCommands line ! 1) [] s1
       = (Inr \<lparr>handled = True, content = ''/bin/sh: 1: bd: not found'',
               data = None, error = None\<rparr>,
          s1\<lparr>events := events s1 @ [Exec ''bd log --category sk --last 20'']\<rparr>)"
    using caught [of s1 "[]"] by (simp add: ran_bd_def bd_content_def env bd_missing_def)
  moreover have "handler (availableCommands line ! 4) [] (s1\<lparr>execAsync := bd_echo\<rparr>)
       = (Inr \<lparr>handled = True, content = ''bd log --session sess-abc123'',
               data = None, error = None\<rparr>,
          s1\<lparr>execAsync := bd_echo,
             events := events s1 @ [Exec ''bd log --session sess-abc123'']\<rparr>)"
    using caught [of "s1\<lparr>execAsync := bd_echo\<rparr>" "[]"]
    by (simp add: ran_bd_def bd_content_def bd_echo_def newline_def trim_def is_space_def)
  ultimately show ?thesis
    using parsed by blast
qed


section \<open>The store under interpret\<close>

lemma beads_handlers_state:
  "\<forall>cmd \<in> set (createBeadsCommands ctx). \<forall>ps.
      snd (handler cmd ps s) = s \<or> (\<exists>args. snd (handler cmd ps s) = snd (runBdCommand args s))"
    (is "\<forall>cmd \<in> _. ?frame cmd")
proof -
  have "?frame (createBeadsCommands ctx ! 0)"
    by (auto simp: createBeadsCommands_def Let_def case_prod_beta)
  moreover have "?frame (createBeadsCommands ctx ! 1)"
    by (auto simp: createBeadsCommands_def Let_def case_prod_beta split: option.splits)
  moreover have "?frame (createBeadsCommands ctx ! 2)"
    by (auto simp: createBeadsCommands_def Let_def case_prod_beta)
  moreover have "?frame (createBeadsCommands ctx ! 3)"
    by (auto simp: createBeadsCommands_def Let_def case_prod_beta split: option.splits)
  moreover have "?frame (createBeadsCommands ctx ! 4)"
    by (auto simp: createBeadsCommands_def Let_def case_prod_beta)
  moreover have "?frame (createBeadsCommands ctx ! 5)"
    by (auto simp: createBeadsCommands_def Let_def case_prod_beta)
  moreover have "?frame (createBeadsCommands ctx ! 6)"
    by (auto simp: createBeadsCommands_def Let_def case_prod_beta)
  ultimately have "\<forall>i < 7. ?frame (createBeadsCommands ctx ! i)"
    by (simp add: less_Suc_eq eval_nat_numeral)
  then show ?thesis
    by (metis beads_commands_length in_set_conv_nth)
qed

lemma find_command_mem: "find_command cmds cmdName = Some cmd \<Longrightarrow> cmd \<in> set cmds"
  by (induction cmds) (auto split: if_splits)

lemma beads_handleQuery_state:
  "\<exists>evs. snd (beads_handleQuery (createBeadsCommands ctx) input s) = s\<lparr>events := events s @ evs\<rparr>"
proof -
  have handler_state: "\<exists>evs. snd (handler cmd ps s) = s\<lparr>events := events s @ evs\<rparr>"
    if "cmd \<in> set (createBeadsCommands ctx)" for cmd ps
  proof -
    from that beads_handlers_state [of ctx s]
    consider "snd (handler cmd ps s) = s"
      | args where "snd (handler cmd ps s) = snd (runBdCommand args s)"
      by blast
    then show ?thesis
    proof cases
      case 1
      then have "snd (handler cmd ps s) = s\<lparr>events := events s @ []\<rparr>" by simp
      then show ?thesis by blast
    next
      case 2
      then show ?thesis by (auto simp: runBdCommand_state)
    qed
  qed
  have unchanged: "\<exists>evs. s = s\<lparr>events := events s @ evs\<rparr>"
    by (rule exI [of _ "[]"]) simp
  show ?thesis
    using handler_state unchanged
    by (auto simp: beads_handleQuery_def Let_def split: list.splits option.splits
        dest: find_command_mem)
qed


lemma interpret_query_state:
  assumes "handleQuery line = beads_handleQuery (createBeadsCommands ctx)"
  shows "\<exists>evs. snd (interpret_query line input s) = s\<lparr>events := events s @ evs\<rparr>"
proof -
  obtain r1 s1 where hq: "handleQuery line input s = (r1, s1)"
    by (cases "handleQuery line input s")
  obtain evs where s1: "s1 = s\<lparr>events := events s @ evs\<rparr>"
    using beads_handleQuery_state [of ctx input s] hq assms by auto
  have "snd (interpret_query line input s) = s1
      \<or> (\<exists>ev. snd (interpret_query line input s) = s1\<lparr>events := events s1 @ [ev]\<rparr>)"
    using hq
    by (auto simp: interpret_query_def Let_def split: sum.splits option.splits thrown.splits)
  then show ?thesis
  proof
    assume "snd (interpret_query line input s) = s1"
    with s1 show ?thesis by blast
  next
    assume "\<exists>ev. snd (interpret_query line input s) = s1\<lparr>events := events s1 @ [ev]\<rparr>"
    then obtain ev where "snd (interpret_query line input s) = s1\<lparr>events := events s1 @ [ev]\<rparr>"
      by blast
    then have "snd (interpret_query line input s) = s\<lparr>events := events s @ (evs @ [ev])\<rparr>"
      by (simp add: s1)
    then show ?thesis by blast
  qed
qed

lemma run_actions_store:
  assumes "handleQuery line = beads_handleQuery (createBeadsCommands ctx)"
  shows "lines (run_actions line actions s) = lines s
     \<and> sources (run_actions line actions s) = sources s
     \<and> contexts (run_actions line actions s) = contexts s"
proof (induction actions arbitrary: s)
  case Nil
  show ?case by simp
next
  case (Cons a actions)
  show ?case
  proof (cases a)
    case (Interpret input)
    obtain evs where "snd (interpret_query line input s) = s\<lparr>events := events s @ evs\<rparr>"
      using interpret_query_state [OF assms] by blast
    with Cons [of "snd (interpret_query line input s)"] Interpret show ?thesis by simp
  next
    case (Configure config)
    with Cons [of "configureClaudeFallback config s"] show ?thesis
      by (simp add: configureClaudeFallback_def)
  next
    case (Environment env)
    with Cons [of "s\<lparr>execAsync := env\<rparr>"] show ?thesis by simp
  qed
qed

text \<open>
  C6. For a parsed beads line and any sequence of \<^verbatim>\<open>interpret\<close> calls on it, with any
  inputs, interleaved with any reconfiguration of the fallback and any change of the
  environment, started in any state: the three stores are afterwards what they were. So
  \<^verbatim>\<open>line.source\<close> is the same reference, and the \<^verbatim>\<open>source\<close> object and its context
  object have the same contents.
\<close>

theorem interpret_never_mutates_source:
  assumes parsed: "BeadsAdapter_parse rawLine s0 = (Inr (Some line), s1)"
    and after: "s' = run_actions line actions s"
  shows "lines s' = lines s \<and> sources s' = sources s \<and> contexts s' = contexts s
     \<and> line_source (lines s' (self line)) = line_source (lines s (self line))
     \<and> sources s' (line_source (lines s' (self line))) = sources s (line_source (lines s (self line)))
     \<and> contexts s' (source_context (sources s' (line_source (lines s' (self line)))))
         = contexts s (source_context (sources s (line_source (lines s (self line)))))"
proof -
  obtain ctx where "handleQuery line = beads_handleQuery (createBeadsCommands ctx)"
    using BeadsAdapter_parse_line [OF parsed] by blast
  then have "lines s' = lines s \<and> sources s' = sources s \<and> contexts s' = contexts s"
    unfolding after by (rule run_actions_store)
  then show ?thesis by simp
qed

theorem interpret_never_mutates_source_witness:
  "\<exists>line s1. BeadsAdapter_parse example_line (initial_state bd_missing) = (Inr (Some line), s1)
     \<and> sources (run_actions line
          [Interpret ''show'', Configure \<lparr>enabled = True, fallback_handler = Some resp_handler\<rparr>,
           Interpret ''why did this happen'', Environment bd_echo, Interpret ''after''] s1)
         (line_source (lines s1 (self line)))
       = sources s1 (line_source (lines s1 (self line)))
     \<and> contexts (run_actions line
          [Interpret ''show'', Configure \<lparr>enabled = True, fallback_handler = Some resp_handler\<rparr>,
           Interpret ''why did this happen'', Environment bd_echo, Interpret ''after''] s1)
       = contexts s1"
proof -
  obtain line s1 where parsed:
    "BeadsAdapter_parse example_line (initial_state bd_missing) = (Inr (Some line), s1)"
    using example_line_parsed by blast
  show ?thesis
    using interpret_never_mutates_source [OF parsed refl, of
        "[Interpret ''show'', Configure \<lparr>enabled = True, fallback_handler = Some resp_handler\<rparr>,
           Interpret ''why did this happen'', Environment bd_echo, Interpret ''after'']" s1]
      parsed
    by (intro exI [of _ line] exI [of _ s1]) simp
qed

section \<open>Empty queries\<close>

text \<open>
  C10. For a parsed beads line and an input that is empty or consists of white space only,
  \<^verbatim>\<open>handleQuery\<close> returns the unknown-command result with the empty command name and
  changes nothing; and with the fallback enabled and a handler set, \<^verbatim>\<open>interpret\<close> passes
  the input on to the handler and settles with what the handler's answer gives.
\<close>

theorem handleQuery_empty_input:
  assumes parsed: "BeadsAdapter_parse rawLine s0 = (Inr (Some line), s1)"
    and blank: "\<forall>c \<in> set input. is_space c"
  shows "handleQuery line input s
       = (Inr \<lparr>handled = False, content = [], data = None,
               error = Some ''Unknown command: . Try: show, related, deps, category, session, before, after''\<rparr>,
          s)
     \<and> (\<forall>h. enabled (fallbackConfig s) \<and> fallback_handler (fallbackConfig s) = Some h \<longrightarrow>
           interpret_query line input s
             = (case h (formatContextForClaude line s) input of
                  Inr response \<Rightarrow>
                    Inr \<lparr>handled = True, content = response, data = None, error = None\<rparr>
                | Inl ThrownNull \<Rightarrow> Inl (TypeError ''null'' ''message'')
                | Inl ThrownUndefined \<Rightarrow> Inl (TypeError ''undefined'' ''message'')
                | Inl (Thrown msg) \<Rightarrow>
                    Inr \<lparr>handled = False, content = [], data = None,
                         error = Some (''Claude fallback failed: ''
                                       @ (case msg of
                                            Some m \<Rightarrow> m | None \<Rightarrow> ''undefined''))\<rparr>,
                s\<lparr>events := events s @ [FallbackCall (formatContextForClaude line s) input]\<rparr>))"
proof -
  obtain ctx where cmds: "availableCommands line = createBeadsCommands ctx"
    and hq: "handleQuery line = beads_handleQuery (createBeadsCommands ctx)"
    using BeadsAdapter_parse_line [OF parsed] by blast
  have "tokens input = []"
    using blank by (rule tokens_spaces)
  then have "beads_handleQuery (createBeadsCommands ctx) input s =
     (case find_command (createBeadsCommands ctx) [] of
        Some cmd \<Rightarrow> handler cmd [] s
      | None \<Rightarrow> (Inr (unknown_command (createBeadsCommands ctx) []), s))"
    using beads_handleQuery_tokens [of "[]" input "[]" "[]" "createBeadsCommands ctx" s] by simp
  moreover have "find_command (createBeadsCommands ctx) [] = None"
    by (intro find_command_none beads_commands_no_match) simp
  ultimately have unknown: "handleQuery line input s
       = (Inr \<lparr>handled = False, content = [], data = None,
               error = Some ''Unknown command: . Try: show, related, deps, category, session, before, after''\<rparr>,
          s)"
    by (simp add: hq unknown_command_def beads_command_names)
  then show ?thesis
    by (auto simp: interpret_query_def Let_def template_def
        split: sum.splits option.splits thrown.splits)
qed

theorem handleQuery_empty_input_witness:
  "\<exists>line s1. BeadsAdapter_parse example_line (initial_state bd_missing) = (Inr (Some line), s1)
     \<and> handleQuery line ''   '' s1
         = (Inr \<lparr>handled = False, content = [], data = None,
                 error = Some ''Unknown command: . Try: show, related, deps, category, session, before, after''\<rparr>,
            s1)
     \<and> fst (interpret_query line ''   ''
              (configureClaudeFallback \<lparr>enabled = True, fallback_handler = Some resp_handler\<rparr> s1))
         = Inr \<lparr>handled = True, content = ''resp'', data = None, error = None\<rparr>"
proof -
  obtain line s1 where parsed:
    "BeadsAdapter_parse example_line (initial_state bd_missing) = (Inr (Some line), s1)"
    using example_line_parsed by blast
  have blank: "\<forall>c \<in> set ''   ''. is_space c"
    by (simp add: is_space_def)
  define s2 where "s2 = configureClaudeFallback
      \<lparr>enabled = True, fallback_handler = Some resp_handler\<rparr> s1"
  have cfg: "enabled (fallbackConfig s2)" "fallback_handler (fallbackConfig s2) = Some resp_handler"
    by (simp_all add: s2_def configureClaudeFallback_def)
  have "fst (interpret_query line ''   '' s2)
      = Inr \<lparr>handled = True, content = ''resp'', data = None, error = None\<rparr>"
    using handleQuery_empty_input [OF parsed blank, of s2] cfg
    by (simp add: resp_handler_def)
  then show ?thesis
    using handleQuery_empty_input [OF parsed blank, of s1] parsed
    by (intro exI [of _ line] exI [of _ s1]) (simp add: s2_def)
qed

end
